theory Spec2Isabelle
  imports Main "HOL-Library.AList"
begin

section \<open>Values received from and sent to the transport\<close>

text \<open>
  The data listener receives \<^verbatim>\<open>data: any\<close> and casts it to \<^verbatim>\<open>P2PMessage\<close> without a
  check, so a message is an arbitrary JavaScript value. Only the shapes the service
  distinguishes are modelled.
\<close>

datatype jsval =
    JUndefined
  | JNull
  | JBool bool
  | JNum int
  | JStr string
  | JArr "jsval list"
  | JObj "(string \<times> jsval) list"

datatype js_error = TypeError

text \<open>
  Property access \<^verbatim>\<open>v.k\<close>: a TypeError on \<^verbatim>\<open>undefined\<close> and \<^verbatim>\<open>null\<close>, the field or
  \<^verbatim>\<open>undefined\<close> on an object, and \<^verbatim>\<open>undefined\<close> on the other values for the four
  properties the service reads (\<^verbatim>\<open>type\<close>, \<^verbatim>\<open>payload\<close>, \<^verbatim>\<open>name\<close>, \<^verbatim>\<open>id\<close>).
\<close>

fun js_get :: "jsval \<Rightarrow> string \<Rightarrow> js_error + jsval" where
  "js_get JUndefined k = Inl TypeError"
| "js_get JNull k = Inl TypeError"
| "js_get (JObj kvs) k = Inr (case map_of kvs k of None \<Rightarrow> JUndefined | Some v \<Rightarrow> v)"
| "js_get (JBool b) k = Inr JUndefined"
| "js_get (JNum n) k = Inr JUndefined"
| "js_get (JStr s) k = Inr JUndefined"
| "js_get (JArr vs) k = Inr JUndefined"

fun isArray :: "jsval \<Rightarrow> bool" where
  "isArray (JArr vs) = True"
| "isArray v = False"

text \<open>The envelope \<^verbatim>\<open>{ type: t, payload: p }\<close> and the handshake payload \<^verbatim>\<open>{ name: n }\<close>.\<close>

definition P2PMessage :: "string \<Rightarrow> jsval \<Rightarrow> jsval" where
  "P2PMessage t p = JObj [(''type'', JStr t), (''payload'', p)]"

definition name_payload :: "string \<Rightarrow> jsval" where
  "name_payload n = JObj [(''name'', JStr n)]"

section \<open>JavaScript \<^verbatim>\<open>Map\<close>\<close>

text \<open>
  A \<^verbatim>\<open>Map\<close> iterates in insertion order; \<^verbatim>\<open>set\<close> on a present key keeps its position,
  on an absent key appends. It is an association list with distinct keys.
\<close>

type_synonym ('k, 'v) js_map = "('k \<times> 'v) list"

definition map_has :: "'k \<Rightarrow> ('k, 'v) js_map \<Rightarrow> bool" where
  "map_has k m = (map_of m k \<noteq> None)"

definition map_get :: "'k \<Rightarrow> ('k, 'v) js_map \<Rightarrow> 'v option" where
  "map_get k m = map_of m k"

definition map_set :: "'k \<Rightarrow> 'v \<Rightarrow> ('k, 'v) js_map \<Rightarrow> ('k, 'v) js_map" where
  "map_set k v m = AList.update k v m"

definition map_delete :: "'k \<Rightarrow> ('k, 'v) js_map \<Rightarrow> ('k, 'v) js_map" where
  "map_delete k m = AList.delete k m"

definition entries :: "'k \<Rightarrow> ('k, 'v) js_map \<Rightarrow> ('k \<times> 'v) list" where
  "entries k m = filter (\<lambda>e. fst e = k) m"

section \<open>The service and the transport objects it holds\<close>

text \<open>
  A \<^verbatim>\<open>DataConnection\<close> is an object of the transport library: \<open>cid\<close> is its identity,
  \<open>conn_peer\<close> its read-only \<^verbatim>\<open>peer\<close> property. Its mutable \<^verbatim>\<open>open\<close> flag and its
  listeners live in the state, indexed by \<open>cid\<close>.
\<close>

record conn =
  cid :: nat
  conn_peer :: string

record peer_obj =
  pid :: string
  destroyed :: bool

datatype open_listener = SendHandshakeInit | SetupDataListener

text \<open>
  What a call does to the outside: calls into the transport and calls of the registered
  callbacks (the events). \<open>Connect r h n\<close> is a channel \<open>h\<close> to \<open>r\<close> that
  \<^verbatim>\<open>peer.connect\<close> returned, \<open>Send h m\<close> a message that went out on channel \<open>h\<close>,
  \<open>Close h\<close> a call of \<^verbatim>\<open>close()\<close> on channel \<open>h\<close>. A callback is code of the
  application: its call is recorded and what it does is not part of the service. Console
  output is left out.
\<close>

datatype effect =
    NewPeer string
  | Connect string nat string
  | Send nat jsval
  | Close nat
  | ConnectionRequest string jsval
  | PeerConnected string jsval
  | PeerDisconnected string
  | MessageArrived jsval
  | ChannelSync jsval
  | BoardUpdate jsval
  | MessageDeleted jsval
  | TypingChanged jsval

text \<open>
  The fields of \<^verbatim>\<open>PeerService\<close>; a callback field is \<open>True\<close> when a handler is
  registered. \<^verbatim>\<open>peer.connect\<close> can return \<^verbatim>\<open>undefined\<close>, which \<^verbatim>\<open>connectToPeer\<close>
  stores, so a value of \<open>pendingOutgoing\<close> is a connection or \<^verbatim>\<open>undefined\<close> (\<open>None\<close>);
  the values of the other two maps come from listeners and are connections. The last
  six fields are the transport's side: the \<^verbatim>\<open>open\<close> flag of each connection, whether
  its data channel has failed (a send on it then fails), whether the Peer has lost its
  connection to the signalling server, the listeners registered on each connection, and
  the next fresh identity.
\<close>

record peer_service =
  peer :: "peer_obj option"
  connections :: "(string, conn) js_map"
  pendingIncoming :: "(string, conn) js_map"
  pendingOutgoing :: "(string, conn option) js_map"
  onMessageCallback :: bool
  onConnectionRequestCallback :: bool
  onPeerConnectedCallback :: bool
  onPeerDisconnectedCallback :: bool
  onChannelSyncCallback :: bool
  onBoardUpdateCallback :: bool
  onMessageDeletedCallback :: bool
  onTypingCallback :: bool
  myName :: string
  conn_open :: "nat \<Rightarrow> bool"
  chan_failed :: "nat \<Rightarrow> bool"
  peer_disconnected :: bool
  on_open :: "nat \<Rightarrow> open_listener option"
  data_listener :: "nat \<Rightarrow> bool"
  next_cid :: nat

text \<open>\<^verbatim>\<open>new PeerService()\<close>.\<close>

definition new_PeerService :: peer_service where
  "new_PeerService =
     \<lparr> peer = None, connections = [], pendingIncoming = [], pendingOutgoing = [],
       onMessageCallback = False, onConnectionRequestCallback = False,
       onPeerConnectedCallback = False, onPeerDisconnectedCallback = False,
       onChannelSyncCallback = False, onBoardUpdateCallback = False,
       onMessageDeletedCallback = False, onTypingCallback = False,
       myName = [], conn_open = (\<lambda>h. False), chan_failed = (\<lambda>h. False),
       peer_disconnected = False, on_open = (\<lambda>h. None), data_listener = (\<lambda>h. False), next_cid = 0 \<rparr>"

text \<open>
  A call yields the effects it performed, the state it left and the exception it threw,
  if any.
\<close>

type_synonym outcome = "effect list \<times> peer_service \<times> js_error option"

section \<open>Callback registration\<close>

definition onMessage :: "peer_service \<Rightarrow> peer_service" where
  "onMessage s = s\<lparr>onMessageCallback := True\<rparr>"

definition onConnectionRequest :: "peer_service \<Rightarrow> peer_service" where
  "onConnectionRequest s = s\<lparr>onConnectionRequestCallback := True\<rparr>"

definition onPeerConnected :: "peer_service \<Rightarrow> peer_service" where
  "onPeerConnected s = s\<lparr>onPeerConnectedCallback := True\<rparr>"

definition onPeerDisconnected :: "peer_service \<Rightarrow> peer_service" where
  "onPeerDisconnected s = s\<lparr>onPeerDisconnectedCallback := True\<rparr>"

section \<open>Initialisation\<close>

datatype promise = Resolved string | Awaiting

text \<open>
  \<^verbatim>\<open>initialize\<close> stores the name first, then returns a resolved promise when it holds
  a live peer of that id; otherwise it constructs a new \<^verbatim>\<open>Peer\<close> and the promise
  waits for the transport.
\<close>

definition initialize :: "string \<Rightarrow> string \<Rightarrow> peer_service \<Rightarrow> promise \<times> effect list \<times> peer_service" where
  "initialize userId userName s =
     (let s1 = s\<lparr>myName := userName\<rparr> in
      case peer s1 of
        Some p \<Rightarrow>
          if \<not> destroyed p \<and> pid p = userId then (Resolved userId, [], s1)
          else (Awaiting, [NewPeer userId],
                s1\<lparr>peer := Some \<lparr>pid = userId, destroyed = False\<rparr>,
                   peer_disconnected := False\<rparr>)
      | None \<Rightarrow>
          (Awaiting, [NewPeer userId],
           s1\<lparr>peer := Some \<lparr>pid = userId, destroyed = False\<rparr>,
              peer_disconnected := False\<rparr>))"

definition isInitialized :: "peer_service \<Rightarrow> bool" where
  "isInitialized s = (case peer s of None \<Rightarrow> False | Some p \<Rightarrow> \<not> destroyed p)"

section \<open>Listeners\<close>

definition finalizeConnection :: "conn \<Rightarrow> jsval \<Rightarrow> peer_service \<Rightarrow> effect list \<times> peer_service" where
  "finalizeConnection c name s =
     (if onPeerConnectedCallback s then [PeerConnected (conn_peer c) name] else [],
      s\<lparr>connections := map_set (conn_peer c) c (connections s)\<rparr>)"

text \<open>
  The \<^verbatim>\<open>data\<close> listener installed by \<^verbatim>\<open>setupDataListener\<close>: one definition for
  each branch of its \<^verbatim>\<open>if\<close> chain, then the chain. The kinds are those of the type
  \<^verbatim>\<open>P2PMessageType\<close>.
\<close>

definition P2PMessageType :: "jsval list" where
  "P2PMessageType =
     [JStr ''HANDSHAKE_INIT'', JStr ''HANDSHAKE_ACCEPT'', JStr ''CHAT_MESSAGE'',
      JStr ''CHANNEL_SYNC'', JStr ''BOARD_UPDATE'', JStr ''DELETE_MESSAGE'',
      JStr ''TYPING_STATUS'']"

definition on_HANDSHAKE_INIT :: "conn \<Rightarrow> jsval \<Rightarrow> peer_service \<Rightarrow> outcome" where
  "on_HANDSHAKE_INIT c msg s =
     (case js_get msg ''payload'' of
        Inl e \<Rightarrow> ([], s, Some e)
      | Inr p \<Rightarrow>
          (case js_get p ''name'' of
             Inl e \<Rightarrow> ([], s, Some e)
           | Inr peerName \<Rightarrow>
               (if onConnectionRequestCallback s
                then [ConnectionRequest (conn_peer c) peerName] else [],
                s\<lparr>pendingIncoming := map_set (conn_peer c) c (pendingIncoming s)\<rparr>,
                None)))"

definition on_HANDSHAKE_ACCEPT :: "conn \<Rightarrow> jsval \<Rightarrow> peer_service \<Rightarrow> outcome" where
  "on_HANDSHAKE_ACCEPT c msg s =
     (case js_get msg ''payload'' of
        Inl e \<Rightarrow> ([], s, Some e)
      | Inr p \<Rightarrow>
          (case js_get p ''name'' of
             Inl e \<Rightarrow> ([], s, Some e)
           | Inr peerName \<Rightarrow>
               (case finalizeConnection c peerName
                       (s\<lparr>pendingOutgoing := map_delete (conn_peer c) (pendingOutgoing s)\<rparr>) of
                  (es, s') \<Rightarrow> (es, s', None))))"

definition on_CHAT_MESSAGE :: "jsval \<Rightarrow> peer_service \<Rightarrow> outcome" where
  "on_CHAT_MESSAGE msg s =
     (if onMessageCallback s then
        (case js_get msg ''payload'' of
           Inl e \<Rightarrow> ([], s, Some e)
         | Inr p \<Rightarrow> ([MessageArrived p], s, None))
      else ([], s, None))"

definition on_CHANNEL_SYNC :: "jsval \<Rightarrow> peer_service \<Rightarrow> outcome" where
  "on_CHANNEL_SYNC msg s =
     (if onChannelSyncCallback s then
        (case js_get msg ''payload'' of
           Inl e \<Rightarrow> ([], s, Some e)
         | Inr p \<Rightarrow> if isArray p then ([ChannelSync p], s, None) else ([], s, None))
      else ([], s, None))"

definition on_BOARD_UPDATE :: "jsval \<Rightarrow> peer_service \<Rightarrow> outcome" where
  "on_BOARD_UPDATE msg s =
     (if onBoardUpdateCallback s then
        (case js_get msg ''payload'' of
           Inl e \<Rightarrow> ([], s, Some e)
         | Inr p \<Rightarrow> ([BoardUpdate p], s, None))
      else ([], s, None))"

definition on_DELETE_MESSAGE :: "jsval \<Rightarrow> peer_service \<Rightarrow> outcome" where
  "on_DELETE_MESSAGE msg s =
     (if onMessageDeletedCallback s then
        (case js_get msg ''payload'' of
           Inl e \<Rightarrow> ([], s, Some e)
         | Inr p \<Rightarrow>
             (case js_get p ''id'' of
                Inl e \<Rightarrow> ([], s, Some e)
              | Inr i \<Rightarrow> ([MessageDeleted i], s, None)))
      else ([], s, None))"

definition on_TYPING_STATUS :: "jsval \<Rightarrow> peer_service \<Rightarrow> outcome" where
  "on_TYPING_STATUS msg s =
     (if onTypingCallback s then
        (case js_get msg ''payload'' of
           Inl e \<Rightarrow> ([], s, Some e)
         | Inr p \<Rightarrow> ([TypingChanged p], s, None))
      else ([], s, None))"

definition on_data :: "conn \<Rightarrow> jsval \<Rightarrow> peer_service \<Rightarrow> outcome" where
  "on_data c msg s =
     (case js_get msg ''type'' of
        Inl e \<Rightarrow> ([], s, Some e)
      | Inr t \<Rightarrow>
          if t = JStr ''HANDSHAKE_INIT'' then on_HANDSHAKE_INIT c msg s
          else if t = JStr ''HANDSHAKE_ACCEPT'' then on_HANDSHAKE_ACCEPT c msg s
          else if t = JStr ''CHAT_MESSAGE'' then on_CHAT_MESSAGE msg s
          else if t = JStr ''CHANNEL_SYNC'' then on_CHANNEL_SYNC msg s
          else if t = JStr ''BOARD_UPDATE'' then on_BOARD_UPDATE msg s
          else if t = JStr ''DELETE_MESSAGE'' then on_DELETE_MESSAGE msg s
          else if t = JStr ''TYPING_STATUS'' then on_TYPING_STATUS msg s
          else ([], s, None))"

text \<open>The \<^verbatim>\<open>close\<close> listener: three deletions, then the callback, whatever the state.\<close>

definition on_close :: "conn \<Rightarrow> peer_service \<Rightarrow> effect list \<times> peer_service" where
  "on_close c s =
     (if onPeerDisconnectedCallback s then [PeerDisconnected (conn_peer c)] else [],
      s\<lparr>connections := map_delete (conn_peer c) (connections s),
        pendingIncoming := map_delete (conn_peer c) (pendingIncoming s),
        pendingOutgoing := map_delete (conn_peer c) (pendingOutgoing s)\<rparr>)"

text \<open>The \<^verbatim>\<open>error\<close> listener: two deletions and no callback.\<close>

definition on_error :: "conn \<Rightarrow> peer_service \<Rightarrow> effect list \<times> peer_service" where
  "on_error c s =
     ([],
      s\<lparr>connections := map_delete (conn_peer c) (connections s),
        pendingOutgoing := map_delete (conn_peer c) (pendingOutgoing s)\<rparr>)"

definition setupDataListener :: "conn \<Rightarrow> peer_service \<Rightarrow> peer_service" where
  "setupDataListener c s = s\<lparr>data_listener := (data_listener s)(cid c := True)\<rparr>"

definition handleIncomingConnection :: "conn \<Rightarrow> peer_service \<Rightarrow> peer_service" where
  "handleIncomingConnection c s = s\<lparr>on_open := (on_open s)(cid c \<mapsto> SetupDataListener)\<rparr>"

text \<open>
  The transport library emits an event by calling the listeners at once, inside the call
  that caused it. \<^verbatim>\<open>close()\<close> on an open connection clears the \<^verbatim>\<open>open\<close> flag and
  emits \<^verbatim>\<open>close\<close>, so the close listener of the service runs inside the call; on a
  connection that is not open it emits nothing.
\<close>

definition emit_close :: "conn \<Rightarrow> peer_service \<Rightarrow> effect list \<times> peer_service" where
  "emit_close c s =
     (if conn_open s (cid c) then
        (let s1 = s\<lparr>conn_open := (conn_open s)(cid c := False)\<rparr> in
         if data_listener s1 (cid c) then on_close c s1 else ([], s1))
      else ([], s))"

definition conn_close :: "conn \<Rightarrow> peer_service \<Rightarrow> effect list \<times> peer_service" where
  "conn_close c s = (case emit_close c s of (es, s') \<Rightarrow> (Close (cid c) # es, s'))"

text \<open>
  \<^verbatim>\<open>send(m)\<close> never throws. On a connection that is not open it emits \<^verbatim>\<open>error\<close>, so
  the error listener runs. On an open connection whose data channel has failed it
  catches the failure and closes the connection as \<^verbatim>\<open>close()\<close> does. Otherwise the
  message goes out.
\<close>

definition conn_send :: "conn \<Rightarrow> jsval \<Rightarrow> peer_service \<Rightarrow> effect list \<times> peer_service" where
  "conn_send c m s =
     (if \<not> conn_open s (cid c) then
        (if data_listener s (cid c) then on_error c s else ([], s))
      else if chan_failed s (cid c) then emit_close c s
      else ([Send (cid c) m], s))"

text \<open>The \<^verbatim>\<open>open\<close> listener that \<^verbatim>\<open>connectToPeer\<close> installs on its new connection.\<close>

definition on_open_outgoing :: "conn \<Rightarrow> peer_service \<Rightarrow> outcome" where
  "on_open_outgoing c s =
     (case conn_send c (P2PMessage ''HANDSHAKE_INIT'' (name_payload (myName s))) s of
        (es, s') \<Rightarrow> (es, s', None))"

section \<open>Operations\<close>

text \<open>
  \<^verbatim>\<open>peer.connect\<close> returns \<^verbatim>\<open>undefined\<close> on a Peer that is destroyed or has lost the
  signalling server. \<^verbatim>\<open>connectToPeer\<close> stores what it got in \<open>pendingOutgoing\<close> and
  then calls \<^verbatim>\<open>conn.on\<close>, which throws a TypeError on \<^verbatim>\<open>undefined\<close>.
\<close>

definition connectToPeer :: "string \<Rightarrow> peer_service \<Rightarrow> outcome" where
  "connectToPeer peerId s =
     (case peer s of
        None \<Rightarrow> ([], s, None)
      | Some p \<Rightarrow>
          if map_has peerId (connections s) then ([], s, None)
          else
            (case (case map_get peerId (pendingOutgoing s) of
                     Some (Some old) \<Rightarrow> conn_close old s
                   | Some None \<Rightarrow> ([], s)
                   | None \<Rightarrow> ([], s)) of
               (es, s1) \<Rightarrow>
                 if destroyed p \<or> peer_disconnected s1 then
                   (es, s1\<lparr>pendingOutgoing := map_set peerId None (pendingOutgoing s1)\<rparr>,
                    Some TypeError)
                 else
                   (let c = \<lparr>cid = next_cid s1, conn_peer = peerId\<rparr> in
                    (es @ [Connect peerId (cid c) (myName s1)],
                     setupDataListener c
                       (s1\<lparr>next_cid := Suc (next_cid s1),
                           conn_open := (conn_open s1)(cid c := False),
                           chan_failed := (chan_failed s1)(cid c := False),
                           pendingOutgoing := map_set peerId (Some c) (pendingOutgoing s1),
                           on_open := (on_open s1)(cid c \<mapsto> SendHandshakeInit)\<rparr>),
                     None))))"

definition acceptConnection :: "string \<Rightarrow> peer_service \<Rightarrow> outcome" where
  "acceptConnection peerId s =
     (case map_get peerId (pendingIncoming s) of
        None \<Rightarrow> ([], s, None)
      | Some c \<Rightarrow>
          (case conn_send c (P2PMessage ''HANDSHAKE_ACCEPT'' (name_payload (myName s))) s of
             (es1, s1) \<Rightarrow>
               (case finalizeConnection c (JStr peerId)
                       (s1\<lparr>pendingIncoming := map_delete peerId (pendingIncoming s1)\<rparr>) of
                  (es2, s2) \<Rightarrow> (es1 @ es2, s2, None))))"

definition rejectConnection :: "string \<Rightarrow> peer_service \<Rightarrow> effect list \<times> peer_service" where
  "rejectConnection peerId s =
     (case map_get peerId (pendingIncoming s) of
        None \<Rightarrow> ([], s)
      | Some c \<Rightarrow>
          (case conn_close c s of
             (es, s1) \<Rightarrow> (es, s1\<lparr>pendingIncoming := map_delete peerId (pendingIncoming s1)\<rparr>)))"

text \<open>\<^verbatim>\<open>if (conn)\<close> is false for an absent key and for a key stored with \<^verbatim>\<open>undefined\<close>.\<close>

definition cancelRequest :: "string \<Rightarrow> peer_service \<Rightarrow> effect list \<times> peer_service" where
  "cancelRequest peerId s =
     (case map_get peerId (pendingOutgoing s) of
        None \<Rightarrow> ([], s)
      | Some None \<Rightarrow> ([], s)
      | Some (Some c) \<Rightarrow>
          (case conn_close c s of
             (es, s1) \<Rightarrow> (es, s1\<lparr>pendingOutgoing := map_delete peerId (pendingOutgoing s1)\<rparr>)))"

definition disconnectPeer :: "string \<Rightarrow> peer_service \<Rightarrow> effect list \<times> peer_service" where
  "disconnectPeer peerId s =
     (case map_get peerId (connections s) of
        None \<Rightarrow> ([], s)
      | Some c \<Rightarrow>
          (case conn_close c s of
             (es, s1) \<Rightarrow>
               (es @ (if onPeerDisconnectedCallback s1 then [PeerDisconnected peerId] else []),
                s1\<lparr>connections := map_delete peerId (connections s1)\<rparr>)))"

text \<open>
  \<^verbatim>\<open>connections.forEach\<close> with the body of \<^verbatim>\<open>broadcast\<close>. The loop visits the entries
  in the order of the map; an entry that a close listener has deleted before the loop
  reaches it is not visited.
\<close>

fun forEach_send :: "jsval \<Rightarrow> (string, conn) js_map \<Rightarrow> peer_service \<Rightarrow> effect list \<times> peer_service" where
  "forEach_send packet [] s = ([], s)"
| "forEach_send packet (e # rest) s =
     (if e \<in> set (connections s) \<and> conn_open s (cid (snd e)) then
        (case conn_send (snd e) packet s of
           (es, s1) \<Rightarrow> (case forEach_send packet rest s1 of (es', s2) \<Rightarrow> (es @ es', s2)))
      else forEach_send packet rest s)"

definition broadcast :: "jsval \<Rightarrow> peer_service \<Rightarrow> outcome" where
  "broadcast message s =
     (case forEach_send (P2PMessage ''CHAT_MESSAGE'' message) (connections s) s of
        (es, s') \<Rightarrow> (es, s', None))"

section \<open>Events of the transport\<close>

text \<open>
  The transport calls the listeners registered on a connection, one event at a time. It
  sets the \<^verbatim>\<open>open\<close> flag before an \<^verbatim>\<open>open\<close> event and clears it before a \<^verbatim>\<open>close\<close>
  event; an incoming connection is a new object. Two more things happen on its side
  without a listener of the service: the data channel under a connection fails
  (\<open>ChanFail\<close>), and the Peer loses the signalling server (\<open>ServerDisconnect\<close>).
\<close>

datatype transport_event =
    IncomingConnection string
  | ChanOpen conn
  | ChanData conn jsval
  | ChanClose conn
  | ChanError conn
  | ChanFail conn
  | ServerDisconnect

fun deliver :: "transport_event \<Rightarrow> peer_service \<Rightarrow> outcome" where
  "deliver (IncomingConnection r) s =
     (if peer s = None then ([], s, None)
      else ([], handleIncomingConnection \<lparr>cid = next_cid s, conn_peer = r\<rparr>
                  (s\<lparr>next_cid := Suc (next_cid s),
                     conn_open := (conn_open s)(next_cid s := False),
                     chan_failed := (chan_failed s)(next_cid s := False)\<rparr>), None))"
| "deliver (ChanOpen c) s =
     (let s1 = s\<lparr>conn_open := (conn_open s)(cid c := True)\<rparr> in
      case on_open s1 (cid c) of
        None \<Rightarrow> ([], s1, None)
      | Some SendHandshakeInit \<Rightarrow> on_open_outgoing c s1
      | Some SetupDataListener \<Rightarrow> ([], setupDataListener c s1, None))"
| "deliver (ChanData c m) s =
     (if data_listener s (cid c) then on_data c m s else ([], s, None))"
| "deliver (ChanClose c) s =
     (let s1 = s\<lparr>conn_open := (conn_open s)(cid c := False)\<rparr> in
      if data_listener s1 (cid c) then (case on_close c s1 of (es, s') \<Rightarrow> (es, s', None))
      else ([], s1, None))"
| "deliver (ChanError c) s =
     (if data_listener s (cid c) then (case on_error c s of (es, s') \<Rightarrow> (es, s', None))
      else ([], s, None))"
| "deliver (ChanFail c) s = ([], s\<lparr>chan_failed := (chan_failed s)(cid c := True)\<rparr>, None)"
| "deliver ServerDisconnect s =
     (if peer s = None then ([], s, None) else ([], s\<lparr>peer_disconnected := True\<rparr>, None))"

section \<open>Runs of the service\<close>

text \<open>
  The application calls the operations and the transport delivers events, one after the
  other on a single thread. An exception ends the call that threw it and nothing more.
\<close>

datatype action =
    Initialize string string
  | OnMessage
  | OnConnectionRequest
  | OnPeerConnected
  | OnPeerDisconnected
  | ConnectToPeer string
  | AcceptConnection string
  | RejectConnection string
  | CancelRequest string
  | DisconnectPeer string
  | Broadcast jsval
  | Transport transport_event

fun step :: "action \<Rightarrow> peer_service \<Rightarrow> effect list \<times> peer_service" where
  "step (Initialize userId userName) s = snd (initialize userId userName s)"
| "step OnMessage s = ([], onMessage s)"
| "step OnConnectionRequest s = ([], onConnectionRequest s)"
| "step OnPeerConnected s = ([], onPeerConnected s)"
| "step OnPeerDisconnected s = ([], onPeerDisconnected s)"
| "step (ConnectToPeer r) s = (case connectToPeer r s of (es, s', x) \<Rightarrow> (es, s'))"
| "step (AcceptConnection r) s = (case acceptConnection r s of (es, s', x) \<Rightarrow> (es, s'))"
| "step (RejectConnection r) s = rejectConnection r s"
| "step (CancelRequest r) s = cancelRequest r s"
| "step (DisconnectPeer r) s = disconnectPeer r s"
| "step (Broadcast m) s = (case broadcast m s of (es, s', x) \<Rightarrow> (es, s'))"
| "step (Transport ev) s = (case deliver ev s of (es, s', x) \<Rightarrow> (es, s'))"

fun run :: "action list \<Rightarrow> peer_service \<Rightarrow> effect list \<times> peer_service" where
  "run [] s = ([], s)"
| "run (a # as) s =
     (case step a s of (es, s') \<Rightarrow> (case run as s' of (es', s'') \<Rightarrow> (es @ es', s'')))"

section \<open>Links and events\<close>

text \<open>
  The Links of a remote identifier: its entries in the three maps that hold a
  connection. A key that \<open>pendingOutgoing\<close> holds with \<^verbatim>\<open>undefined\<close> is no Link: no
  operation of the service tells it from an absent key.
\<close>

fun defined_entries :: "('k \<times> 'v option) list \<Rightarrow> ('k \<times> 'v) list" where
  "defined_entries [] = []"
| "defined_entries ((k, Some v) # m) = (k, v) # defined_entries m"
| "defined_entries ((k, None) # m) = defined_entries m"

definition links :: "string \<Rightarrow> peer_service \<Rightarrow> (string \<times> conn) list" where
  "links r s =
     entries r (connections s) @ entries r (pendingIncoming s)
     @ defined_entries (entries r (pendingOutgoing s))"

text \<open>
  The active Links whose channel reports open, in the order of the map, and those
  among them whose data channel has not failed.
\<close>

definition open_links :: "peer_service \<Rightarrow> (string, conn) js_map" where
  "open_links s = filter (\<lambda>e. conn_open s (cid (snd e))) (connections s)"

definition working_links :: "peer_service \<Rightarrow> (string, conn) js_map" where
  "working_links s = filter (\<lambda>e. \<not> chan_failed s (cid (snd e))) (open_links s)"

text \<open>
  In the active map a connection is stored under its own \<^verbatim>\<open>peer\<close> property, and no
  key occurs twice.
\<close>

definition active_ok :: "peer_service \<Rightarrow> bool" where
  "active_ok s =
     (distinct (map fst (connections s))
      \<and> list_all (\<lambda>e. conn_peer (snd e) = fst e) (connections s))"

fun is_send :: "effect \<Rightarrow> bool" where
  "is_send (Send h m) = True"
| "is_send ef = False"

definition distinct_keys :: "peer_service \<Rightarrow> bool" where
  "distinct_keys s =
     (distinct (map fst (connections s)) \<and> distinct (map fst (pendingIncoming s))
      \<and> distinct (map fst (pendingOutgoing s)))"

text \<open>Two states with the same callbacks registered.\<close>

definition same_callbacks :: "peer_service \<Rightarrow> peer_service \<Rightarrow> bool" where
  "same_callbacks s' s =
     (onMessageCallback s' = onMessageCallback s
      \<and> onConnectionRequestCallback s' = onConnectionRequestCallback s
      \<and> onPeerConnectedCallback s' = onPeerConnectedCallback s
      \<and> onPeerDisconnectedCallback s' = onPeerDisconnectedCallback s
      \<and> onChannelSyncCallback s' = onChannelSyncCallback s
      \<and> onBoardUpdateCallback s' = onBoardUpdateCallback s
      \<and> onMessageDeletedCallback s' = onMessageDeletedCallback s
      \<and> onTypingCallback s' = onTypingCallback s)"



section \<open>Example services\<close>

definition bob_0 :: conn where
  "bob_0 = \<lparr>cid = 0, conn_peer = ''bob''\<rparr>"

definition bob_1 :: conn where
  "bob_1 = \<lparr>cid = 1, conn_peer = ''bob''\<rparr>"

definition carol_1 :: conn where
  "carol_1 = \<lparr>cid = 1, conn_peer = ''carol''\<rparr>"

text \<open>Alice's service with the four session callbacks registered, initialised.\<close>

definition alice_ready :: peer_service where
  "alice_ready =
     snd (run [OnMessage, OnConnectionRequest, OnPeerConnected, OnPeerDisconnected,
               Initialize ''alice'' ''Alice''] new_PeerService)"

definition init_from :: "string \<Rightarrow> jsval" where
  "init_from n = P2PMessage ''HANDSHAKE_INIT'' (name_payload n)"

definition accept_from :: "string \<Rightarrow> jsval" where
  "accept_from n = P2PMessage ''HANDSHAKE_ACCEPT'' (name_payload n)"

text \<open>Alice has invited Bob; the channel is open and no answer has come.\<close>

definition alice_waiting :: peer_service where
  "alice_waiting = snd (run [ConnectToPeer ''bob'', Transport (ChanOpen bob_0)] alice_ready)"

text \<open>Bob has accepted: the Link to Bob is active.\<close>

definition alice_connected :: peer_service where
  "alice_connected = snd (run [Transport (ChanData bob_0 (accept_from ''Bob''))] alice_waiting)"

text \<open>
  The Link to Bob is active over Alice's channel, and a channel that Bob opened himself
  is open as well.
\<close>

definition alice_two_channels :: peer_service where
  "alice_two_channels =
     snd (run [Transport (IncomingConnection ''bob''), Transport (ChanOpen bob_1)]
            alice_connected)"

text \<open>
  The simultaneous connect: Alice has invited Bob, and Bob's own invitation arrives on
  the channel that Bob opened.
\<close>

definition alice_race :: peer_service where
  "alice_race =
     snd (run [Transport (IncomingConnection ''bob''), Transport (ChanOpen bob_1),
               Transport (ChanData bob_1 (init_from ''Bob''))] alice_waiting)"

text \<open>Bob has invited Alice, who has not answered yet.\<close>

definition alice_invited :: peer_service where
  "alice_invited =
     snd (run [Transport (IncomingConnection ''bob''), Transport (ChanOpen bob_0),
               Transport (ChanData bob_0 (init_from ''Bob''))] alice_ready)"

text \<open>Active Links to Bob and to Carol, in this order, both channels open.\<close>

definition alice_two :: peer_service where
  "alice_two =
     snd (run [ConnectToPeer ''carol'', Transport (ChanOpen carol_1),
               Transport (ChanData carol_1 (accept_from ''Carol''))] alice_connected)"

text \<open>The same, after the data channel under the Link to Bob has failed.\<close>

definition alice_two_broken :: peer_service where
  "alice_two_broken = snd (run [Transport (ChanFail bob_0)] alice_two)"

text \<open>Alice's service after its Peer has lost the signalling server.\<close>

definition alice_offline :: peer_service where
  "alice_offline = snd (run [Transport ServerDisconnect] alice_ready)"

definition registry_ok :: "peer_service \<Rightarrow> bool" where
  "registry_ok s = (distinct_keys s \<and> active_ok s)"

definition peer_online :: "peer_service \<Rightarrow> bool" where
  "peer_online s =
     (case peer s of None \<Rightarrow> False | Some p \<Rightarrow> \<not> destroyed p \<and> \<not> peer_disconnected s)"

fun is_disconnect :: "effect \<Rightarrow> bool" where
  "is_disconnect (PeerDisconnected r) = True"
| "is_disconnect ef = False"

section \<open>The maps\<close>

lemma entries_absent: "k \<notin> fst ` set m \<Longrightarrow> entries k m = []"
  by (induction m) (auto simp: entries_def)

lemma entries_map_delete: "entries k (map_delete k m) = []"
  by (induction m) (auto simp: entries_def map_delete_def AList.delete_eq)

lemma entries_map_set: "distinct (map fst m) \<Longrightarrow> entries k (map_set k v m) = [(k, v)]"
proof (induction m)
  case Nil
  then show ?case by (simp add: entries_def map_set_def)
next
  case (Cons e m)
  show ?case
  proof (cases "fst e = k")
    case True
    with Cons.prems have "k \<notin> fst ` set m" by auto
    then have "entries k m = []" by (rule entries_absent)
    with True show ?thesis by (cases e) (simp add: entries_def map_set_def)
  next
    case False
    with Cons show ?thesis by (cases e) (simp add: entries_def map_set_def)
  qed
qed

lemma entries_at_most_one: "distinct (map fst m) \<Longrightarrow> length (entries k m) \<le> 1"
proof (induction m)
  case Nil
  then show ?case by (simp add: entries_def)
next
  case (Cons e m)
  show ?case
  proof (cases "fst e = k")
    case True
    with Cons.prems have "k \<notin> fst ` set m" by auto
    then have "entries k m = []" by (rule entries_absent)
    with True show ?thesis by (simp add: entries_def)
  next
    case False
    with Cons show ?thesis by (simp add: entries_def)
  qed
qed

lemma entries_empty_iff: "entries k m = [] \<longleftrightarrow> map_get k m = None"
  by (induction m) (auto simp: entries_def map_get_def)

lemma distinct_map_set: "distinct (map fst m) \<Longrightarrow> distinct (map fst (map_set k v m))"
  by (simp add: map_set_def distinct_update)

lemma distinct_map_delete: "distinct (map fst m) \<Longrightarrow> distinct (map fst (map_delete k m))"
  by (simp add: map_delete_def distinct_delete)

lemma map_delete_absent: "map_get k m = None \<Longrightarrow> map_delete k m = m"
  by (simp add: map_get_def map_delete_def map_of_eq_None_iff)

lemma map_delete_set: "map_delete k (map_set k v m) = map_delete k m"
  by (simp add: map_delete_def map_set_def delete_update_same)

lemma map_delete_twice: "map_delete k (map_delete k m) = map_delete k m"
  by (simp add: map_delete_def delete_idem)

lemma map_get_set: "map_get k (map_set k v m) = Some v"
  by (simp add: map_get_def map_set_def update_conv')

lemma entries_map_set_absent: "map_get k m = None \<Longrightarrow> entries k (map_set k v m) = [(k, v)]"
  by (induction m) (auto simp: entries_def map_set_def map_get_def split: if_splits)

lemma keyed_map_delete:
  "list_all (\<lambda>e. conn_peer (snd e) = fst e) m \<Longrightarrow>
     list_all (\<lambda>e. conn_peer (snd e) = fst e) (map_delete k m)"
  by (induction m) (auto simp: map_delete_def)

lemma keyed_map_set:
  "list_all (\<lambda>e. conn_peer (snd e) = fst e) m \<Longrightarrow>
     list_all (\<lambda>e. conn_peer (snd e) = fst e) (map_set (conn_peer c) c m)"
  by (induction m) (auto simp: map_set_def)

lemma set_map_delete: "set (map_delete k m) = {e \<in> set m. fst e \<noteq> k}"
  by (auto simp: map_delete_def AList.delete_eq)

section \<open>What every reachable state satisfies\<close>

lemmas ok_defs = registry_ok_def distinct_keys_def active_ok_def

lemma ok_new: "registry_ok new_PeerService"
  by (simp add: ok_defs new_PeerService_def)

lemma ok_initialize: "registry_ok s \<Longrightarrow> registry_ok (snd (snd (initialize u n s)))"
  by (auto simp: ok_defs initialize_def Let_def split: option.splits)

lemma ok_on_close: "registry_ok s \<Longrightarrow> registry_ok (snd (on_close c s))"
  by (simp add: ok_defs on_close_def distinct_map_delete keyed_map_delete)

lemma ok_on_error: "registry_ok s \<Longrightarrow> registry_ok (snd (on_error c s))"
  by (simp add: ok_defs on_error_def distinct_map_delete keyed_map_delete)

lemma ok_conn_open [simp]: "registry_ok (s\<lparr>conn_open := f\<rparr>) = registry_ok s"
  by (simp add: ok_defs)

lemma ok_emit_close: "registry_ok s \<Longrightarrow> registry_ok (snd (emit_close c s))"
  by (simp add: emit_close_def Let_def ok_on_close)

lemma ok_conn_close: "registry_ok s \<Longrightarrow> registry_ok (snd (conn_close c s))"
  using ok_emit_close [of s c] by (simp add: conn_close_def case_prod_unfold)

lemma ok_conn_send: "registry_ok s \<Longrightarrow> registry_ok (snd (conn_send c m s))"
  by (simp add: conn_send_def ok_on_error ok_emit_close)

lemma ok_finalize: "registry_ok s \<Longrightarrow> registry_ok (snd (finalizeConnection c n s))"
  by (simp add: ok_defs finalizeConnection_def distinct_map_set keyed_map_set)

lemma ok_pendingIncoming_delete:
  "registry_ok s \<Longrightarrow> registry_ok (s\<lparr>pendingIncoming := map_delete k (pendingIncoming s)\<rparr>)"
  by (simp add: ok_defs distinct_map_delete)

lemma ok_pendingOutgoing_delete:
  "registry_ok s \<Longrightarrow> registry_ok (s\<lparr>pendingOutgoing := map_delete k (pendingOutgoing s)\<rparr>)"
  by (simp add: ok_defs distinct_map_delete)

lemma ok_pendingOutgoing_set:
  "registry_ok s \<Longrightarrow> registry_ok (s\<lparr>pendingOutgoing := map_set k v (pendingOutgoing s)\<rparr>)"
  by (simp add: ok_defs distinct_map_set)

lemma ok_connections_delete:
  "registry_ok s \<Longrightarrow> registry_ok (s\<lparr>connections := map_delete k (connections s)\<rparr>)"
  by (simp add: ok_defs distinct_map_delete keyed_map_delete)

lemma ok_connectToPeer: "registry_ok s \<Longrightarrow> registry_ok (fst (snd (connectToPeer r s)))"
proof -
  assume ok: "registry_ok s"
  have c: "registry_ok (snd (case map_get r (pendingOutgoing s) of
                     Some (Some old) \<Rightarrow> conn_close old s
                   | Some None \<Rightarrow> ([], s)
                   | None \<Rightarrow> ([], s)))"
    using ok by (simp add: ok_conn_close split: option.split)
  obtain es s1 where e: "(case map_get r (pendingOutgoing s) of
                     Some (Some old) \<Rightarrow> conn_close old s
                   | Some None \<Rightarrow> ([], s)
                   | None \<Rightarrow> ([], s)) = (es, s1)"
    by (cases "case map_get r (pendingOutgoing s) of
                     Some (Some old) \<Rightarrow> conn_close old s
                   | Some None \<Rightarrow> ([], s)
                   | None \<Rightarrow> ([], s)")
  from c e have s1: "registry_ok s1" by simp
  then have a: "registry_ok (s1\<lparr>pendingOutgoing := map_set r None (pendingOutgoing s1)\<rparr>)"
    by (rule ok_pendingOutgoing_set)
  from s1 have b: "registry_ok
      (setupDataListener \<lparr>cid = next_cid s1, conn_peer = r\<rparr>
        (s1\<lparr>next_cid := Suc (next_cid s1),
            conn_open := (conn_open s1)(next_cid s1 := False),
            chan_failed := (chan_failed s1)(next_cid s1 := False),
            pendingOutgoing :=
              map_set r (Some \<lparr>cid = next_cid s1, conn_peer = r\<rparr>) (pendingOutgoing s1),
            on_open := (on_open s1)(next_cid s1 \<mapsto> SendHandshakeInit)\<rparr>))"
    by (simp add: ok_defs setupDataListener_def distinct_map_set)
  show ?thesis
    using ok a b by (simp add: connectToPeer_def e Let_def split: option.split)
qed

lemma ok_acceptConnection: "registry_ok s \<Longrightarrow> registry_ok (fst (snd (acceptConnection r s)))"
proof (cases "map_get r (pendingIncoming s)")
  case None
  assume "registry_ok s"
  with None show ?thesis by (simp add: acceptConnection_def)
next
  case (Some c)
  assume "registry_ok s"
  then have "registry_ok (snd (conn_send c (P2PMessage ''HANDSHAKE_ACCEPT'' (name_payload (myName s))) s))"
    by (rule ok_conn_send)
  then have "registry_ok (snd (finalizeConnection c (JStr r)
      ((snd (conn_send c (P2PMessage ''HANDSHAKE_ACCEPT'' (name_payload (myName s))) s))
        \<lparr>pendingIncoming := map_delete r (pendingIncoming
           (snd (conn_send c (P2PMessage ''HANDSHAKE_ACCEPT'' (name_payload (myName s))) s)))\<rparr>)))"
    by (intro ok_finalize ok_pendingIncoming_delete)
  with Some show ?thesis by (simp add: acceptConnection_def case_prod_unfold)
qed

lemma ok_rejectConnection: "registry_ok s \<Longrightarrow> registry_ok (snd (rejectConnection r s))"
  by (simp add: rejectConnection_def case_prod_unfold ok_conn_close ok_pendingIncoming_delete
      split: option.split)

lemma ok_cancelRequest: "registry_ok s \<Longrightarrow> registry_ok (snd (cancelRequest r s))"
  by (simp add: cancelRequest_def case_prod_unfold ok_conn_close ok_pendingOutgoing_delete
      split: option.split)

lemma ok_disconnectPeer: "registry_ok s \<Longrightarrow> registry_ok (snd (disconnectPeer r s))"
  by (simp add: disconnectPeer_def case_prod_unfold ok_conn_close ok_connections_delete
      split: option.split)

lemma ok_forEach_send: "registry_ok s \<Longrightarrow> registry_ok (snd (forEach_send pkt m s))"
proof (induction m arbitrary: s)
  case Nil
  then show ?case by simp
next
  case (Cons e m)
  from Cons.prems have "registry_ok (snd (conn_send (snd e) pkt s))" by (rule ok_conn_send)
  then have "registry_ok (snd (forEach_send pkt m (snd (conn_send (snd e) pkt s))))"
    by (rule Cons.IH)
  moreover from Cons.prems have "registry_ok (snd (forEach_send pkt m s))" by (rule Cons.IH)
  ultimately show ?case by (simp add: case_prod_unfold)
qed

lemma ok_broadcast: "registry_ok s \<Longrightarrow> registry_ok (fst (snd (broadcast m s)))"
  using ok_forEach_send [of s "P2PMessage ''CHAT_MESSAGE'' m" "connections s"]
  by (simp add: broadcast_def case_prod_unfold)

lemma ok_on_HANDSHAKE_INIT:
  "registry_ok s \<Longrightarrow> registry_ok (fst (snd (on_HANDSHAKE_INIT c m s)))"
  by (simp add: ok_defs on_HANDSHAKE_INIT_def distinct_map_set split: sum.split)

lemma ok_on_HANDSHAKE_ACCEPT:
  "registry_ok s \<Longrightarrow> registry_ok (fst (snd (on_HANDSHAKE_ACCEPT c m s)))"
  by (simp add: ok_defs on_HANDSHAKE_ACCEPT_def finalizeConnection_def
      distinct_map_set distinct_map_delete keyed_map_set split: sum.split)

lemma on_other_state:
  "fst (snd (on_CHAT_MESSAGE m s)) = s" "fst (snd (on_CHANNEL_SYNC m s)) = s"
  "fst (snd (on_BOARD_UPDATE m s)) = s" "fst (snd (on_DELETE_MESSAGE m s)) = s"
  "fst (snd (on_TYPING_STATUS m s)) = s"
  by (simp_all add: on_CHAT_MESSAGE_def on_CHANNEL_SYNC_def on_BOARD_UPDATE_def
      on_DELETE_MESSAGE_def on_TYPING_STATUS_def split: sum.split)

lemma ok_on_data: "registry_ok s \<Longrightarrow> registry_ok (fst (snd (on_data c m s)))"
  by (simp add: on_data_def on_other_state ok_on_HANDSHAKE_INIT
      ok_on_HANDSHAKE_ACCEPT split: sum.split)

lemma ok_deliver: "registry_ok s \<Longrightarrow> registry_ok (fst (snd (deliver ev s)))"
proof (cases ev)
  case (IncomingConnection r)
  assume "registry_ok s"
  then show ?thesis using IncomingConnection
    by (simp add: ok_defs handleIncomingConnection_def)
next
  case (ChanOpen c)
  assume ok: "registry_ok s"
  then have "registry_ok (snd (conn_send c (P2PMessage ''HANDSHAKE_INIT'' (name_payload (myName s)))
       (s\<lparr>conn_open := (conn_open s)(cid c := True)\<rparr>)))"
    by (intro ok_conn_send) simp
  moreover from ok have "registry_ok (setupDataListener c (s\<lparr>conn_open := (conn_open s)(cid c := True)\<rparr>))"
    by (simp add: ok_defs setupDataListener_def)
  ultimately show ?thesis using ok ChanOpen
    by (simp add: Let_def on_open_outgoing_def case_prod_unfold
        split: option.split open_listener.split)
next
  case (ChanData c m)
  assume "registry_ok s"
  then show ?thesis using ChanData ok_on_data [of s c m] by simp
next
  case (ChanClose c)
  assume "registry_ok s"
  then show ?thesis
    using ChanClose ok_on_close [of "s\<lparr>conn_open := (conn_open s)(cid c := False)\<rparr>" c]
    by (simp add: Let_def case_prod_unfold)
next
  case (ChanError c)
  assume "registry_ok s"
  then show ?thesis using ChanError ok_on_error [of s c] by (simp add: case_prod_unfold)
next
  case (ChanFail c)
  assume "registry_ok s"
  then show ?thesis using ChanFail by (simp add: ok_defs)
next
  case ServerDisconnect
  assume "registry_ok s"
  then show ?thesis using ServerDisconnect by (simp add: ok_defs)
qed

lemma ok_step: "registry_ok s \<Longrightarrow> registry_ok (snd (step a s))"
proof (cases a)
  case (Initialize u n)
  assume "registry_ok s"
  then show ?thesis using Initialize ok_initialize [of s u n] by simp
next
  case OnMessage
  assume "registry_ok s"
  then show ?thesis using OnMessage by (simp add: onMessage_def ok_defs)
next
  case OnConnectionRequest
  assume "registry_ok s"
  then show ?thesis using OnConnectionRequest by (simp add: onConnectionRequest_def ok_defs)
next
  case OnPeerConnected
  assume "registry_ok s"
  then show ?thesis using OnPeerConnected by (simp add: onPeerConnected_def ok_defs)
next
  case OnPeerDisconnected
  assume "registry_ok s"
  then show ?thesis using OnPeerDisconnected by (simp add: onPeerDisconnected_def ok_defs)
next
  case (ConnectToPeer r)
  assume "registry_ok s"
  then show ?thesis using ConnectToPeer ok_connectToPeer [of s r] by (simp add: case_prod_unfold)
next
  case (AcceptConnection r)
  assume "registry_ok s"
  then show ?thesis using AcceptConnection ok_acceptConnection [of s r] by (simp add: case_prod_unfold)
next
  case (Broadcast m)
  assume "registry_ok s"
  then show ?thesis using Broadcast ok_broadcast [of s m] by (simp add: case_prod_unfold)
next
  case (Transport ev)
  assume "registry_ok s"
  then show ?thesis using Transport ok_deliver [of s ev] by (simp add: case_prod_unfold)
qed (simp_all add: ok_rejectConnection ok_cancelRequest ok_disconnectPeer)

lemma ok_run: "registry_ok s \<Longrightarrow> registry_ok (snd (run as s))"
proof (induction as arbitrary: s)
  case Nil
  then show ?case by simp
next
  case (Cons a as)
  from Cons.prems have "registry_ok (snd (step a s))" by (rule ok_step)
  then have "registry_ok (snd (run as (snd (step a s))))" by (rule Cons.IH)
  then show ?case by (simp add: case_prod_unfold)
qed

lemma distinct_keys_run: "distinct_keys (snd (run as new_PeerService))"
  using ok_run [OF ok_new, of as] by (simp add: registry_ok_def)

lemma active_ok_run: "active_ok (snd (run as new_PeerService))"
  using ok_run [OF ok_new, of as] by (simp add: registry_ok_def)

lemma defined_entries_empty_get:
  "defined_entries (entries k m) = [] \<Longrightarrow> map_get k m = None \<or> map_get k m = Some None"
proof (induction m)
  case Nil
  then show ?case by (simp add: map_get_def)
next
  case (Cons e m)
  obtain k' v where e: "e = (k', v)" by (cases e)
  show ?case
  proof (cases "k' = k")
    case True
    with Cons.prems e show ?thesis by (cases v) (simp_all add: entries_def map_get_def)
  next
    case False
    with Cons e show ?thesis by (simp add: entries_def map_get_def)
  qed
qed



lemma links_empty_iff:
  "links r s = [] \<longleftrightarrow> map_get r (connections s) = None
      \<and> map_get r (pendingIncoming s) = None
      \<and> defined_entries (entries r (pendingOutgoing s)) = []"
  by (simp add: links_def entries_empty_iff)

section \<open>The example services, evaluated\<close>

lemmas run_defs =
  new_PeerService_def initialize_def onMessage_def onConnectionRequest_def
  onPeerConnected_def onPeerDisconnected_def connectToPeer_def acceptConnection_def
  rejectConnection_def cancelRequest_def disconnectPeer_def broadcast_def
  finalizeConnection_def on_data_def on_HANDSHAKE_INIT_def on_HANDSHAKE_ACCEPT_def
  on_CHAT_MESSAGE_def on_CHANNEL_SYNC_def on_BOARD_UPDATE_def on_DELETE_MESSAGE_def
  on_TYPING_STATUS_def on_close_def on_error_def setupDataListener_def
  handleIncomingConnection_def conn_send_def conn_close_def emit_close_def
  on_open_outgoing_def
  map_has_def map_get_def map_set_def map_delete_def entries_def links_def
  P2PMessage_def name_payload_def init_from_def accept_from_def
  bob_0_def bob_1_def carol_1_def Let_def

lemma alice_ready_fields:
  "peer alice_ready = Some \<lparr>pid = ''alice'', destroyed = False\<rparr>"
  "connections alice_ready = []" "pendingIncoming alice_ready = []"
  "pendingOutgoing alice_ready = []"
  "onMessageCallback alice_ready" "onConnectionRequestCallback alice_ready"
  "onPeerConnectedCallback alice_ready" "onPeerDisconnectedCallback alice_ready"
  "myName alice_ready = ''Alice''" "next_cid alice_ready = 0"
  "\<not> peer_disconnected alice_ready"
  by (simp_all add: alice_ready_def run_defs)

lemma alice_waiting_fields:
  "peer alice_waiting = Some \<lparr>pid = ''alice'', destroyed = False\<rparr>"
  "connections alice_waiting = []" "pendingIncoming alice_waiting = []"
  "pendingOutgoing alice_waiting = [(''bob'', Some bob_0)]"
  "onMessageCallback alice_waiting" "onConnectionRequestCallback alice_waiting"
  "onPeerConnectedCallback alice_waiting" "onPeerDisconnectedCallback alice_waiting"
  "myName alice_waiting = ''Alice''" "next_cid alice_waiting = 1"
  "data_listener alice_waiting 0" "conn_open alice_waiting 0"
  "\<not> chan_failed alice_waiting 0" "\<not> peer_disconnected alice_waiting"
  by (simp_all add: alice_waiting_def alice_ready_def run_defs)

lemma alice_race_fields:
  "connections alice_race = []" "pendingIncoming alice_race = [(''bob'', bob_1)]"
  "pendingOutgoing alice_race = [(''bob'', Some bob_0)]"
  by (simp_all add: alice_race_def alice_waiting_def alice_ready_def run_defs)

lemma alice_connected_fields:
  "peer alice_connected = Some \<lparr>pid = ''alice'', destroyed = False\<rparr>"
  "connections alice_connected = [(''bob'', bob_0)]" "pendingIncoming alice_connected = []"
  "pendingOutgoing alice_connected = []"
  "onMessageCallback alice_connected" "onConnectionRequestCallback alice_connected"
  "onPeerConnectedCallback alice_connected" "onPeerDisconnectedCallback alice_connected"
  "myName alice_connected = ''Alice''" "next_cid alice_connected = 1"
  "data_listener alice_connected 0" "conn_open alice_connected 0"
  "\<not> chan_failed alice_connected 0" "\<not> peer_disconnected alice_connected"
  by (simp_all add: alice_connected_def alice_waiting_fields run_defs)

lemma alice_invited_fields:
  "peer alice_invited = Some \<lparr>pid = ''alice'', destroyed = False\<rparr>"
  "connections alice_invited = []" "pendingIncoming alice_invited = [(''bob'', bob_0)]"
  "pendingOutgoing alice_invited = []"
  "onMessageCallback alice_invited" "onConnectionRequestCallback alice_invited"
  "onPeerConnectedCallback alice_invited" "onPeerDisconnectedCallback alice_invited"
  "myName alice_invited = ''Alice''" "next_cid alice_invited = 1"
  "data_listener alice_invited 0" "conn_open alice_invited 0"
  "\<not> chan_failed alice_invited 0"
  by (simp_all add: alice_invited_def alice_ready_fields run_defs)

lemma alice_two_fields:
  "connections alice_two = [(''bob'', bob_0), (''carol'', carol_1)]"
  "pendingIncoming alice_two = []" "pendingOutgoing alice_two = []"
  "conn_open alice_two 0" "conn_open alice_two (Suc 0)"
  "\<not> chan_failed alice_two 0" "\<not> chan_failed alice_two (Suc 0)"
  "data_listener alice_two 0" "data_listener alice_two (Suc 0)"
  "onPeerDisconnectedCallback alice_two"
  by (simp_all add: alice_two_def alice_connected_fields run_defs)

lemma alice_two_broken_fields:
  "connections alice_two_broken = [(''bob'', bob_0), (''carol'', carol_1)]"
  "conn_open alice_two_broken 0" "conn_open alice_two_broken (Suc 0)"
  "chan_failed alice_two_broken 0" "\<not> chan_failed alice_two_broken (Suc 0)"
  "data_listener alice_two_broken 0" "data_listener alice_two_broken (Suc 0)"
  "onPeerDisconnectedCallback alice_two_broken"
  by (simp_all add: alice_two_broken_def alice_two_fields bob_0_def)

lemma alice_two_channels_fields:
  "connections alice_two_channels = [(''bob'', bob_0)]"
  "pendingIncoming alice_two_channels = []" "pendingOutgoing alice_two_channels = []"
  "onPeerDisconnectedCallback alice_two_channels"
  "data_listener alice_two_channels 0" "data_listener alice_two_channels (Suc 0)"
  by (simp_all add: alice_two_channels_def alice_connected_fields run_defs)

lemma alice_offline_fields:
  "peer alice_offline = Some \<lparr>pid = ''alice'', destroyed = False\<rparr>"
  "connections alice_offline = []" "pendingIncoming alice_offline = []"
  "pendingOutgoing alice_offline = []" "peer_disconnected alice_offline"
  by (simp_all add: alice_offline_def alice_ready_fields)

section \<open>One Link for each remote identifier\<close>

text \<open>
  C1, as stated, fails. Alice has invited Bob, so a pending-outgoing Link for
  \<open>''bob''\<close> exists; Bob's \<^verbatim>\<open>HANDSHAKE_INIT\<close> then arrives on the channel he opened. The
  listener stores that channel as pending-incoming without looking at the other maps:
  two Links for \<open>''bob''\<close> exist.
\<close>

theorem race_two_links:
  "map_get ''bob'' (pendingOutgoing alice_race) = Some (Some bob_0)
   \<and> map_get ''bob'' (pendingIncoming alice_race) = Some bob_1
   \<and> \<not> length (links ''bob'' alice_race) \<le> 1"
  by (simp add: alice_race_fields links_def entries_def map_get_def)

text \<open>
  C1, amended. In every state the service reaches, each of the three maps holds at most
  one entry for a remote identifier (so up to three Links for it can exist at once). A
  \<^verbatim>\<open>HANDSHAKE_INIT\<close> that carries a name is always recorded: the channel it came on
  becomes the pending-incoming entry of its sender, and the pending-outgoing and active
  maps are left as they were.
\<close>

theorem one_entry_per_map:
  "length (entries r (connections (snd (run as (new_PeerService))))) \<le> 1
   \<and> length (entries r (pendingIncoming (snd (run as (new_PeerService))))) \<le> 1
   \<and> length (entries r (pendingOutgoing (snd (run as (new_PeerService))))) \<le> 1
   \<and> (js_get msg ''type'' = Inr (JStr ''HANDSHAKE_INIT'')
        \<and> js_get msg ''payload'' = Inr p \<and> js_get p ''name'' = Inr n \<longrightarrow>
        snd (snd (on_data c msg s)) = None
        \<and> map_get (conn_peer c) (pendingIncoming (fst (snd (on_data c msg s)))) = Some c
        \<and> pendingOutgoing (fst (snd (on_data c msg s))) = pendingOutgoing s
        \<and> connections (fst (snd (on_data c msg s))) = connections s)"
proof -
  have "distinct_keys (snd (run as (new_PeerService)))"
    by (rule distinct_keys_run)
  then have "distinct (map fst (connections (snd (run as (new_PeerService)))))"
    and "distinct (map fst (pendingIncoming (snd (run as (new_PeerService)))))"
    and "distinct (map fst (pendingOutgoing (snd (run as (new_PeerService)))))"
    by (simp_all add: distinct_keys_def)
  then have "length (entries r (connections (snd (run as (new_PeerService))))) \<le> 1"
    and "length (entries r (pendingIncoming (snd (run as (new_PeerService))))) \<le> 1"
    and "length (entries r (pendingOutgoing (snd (run as (new_PeerService))))) \<le> 1"
    by (blast intro: entries_at_most_one)+
  moreover have "js_get msg ''type'' = Inr (JStr ''HANDSHAKE_INIT'')
        \<and> js_get msg ''payload'' = Inr p \<and> js_get p ''name'' = Inr n \<longrightarrow>
        snd (snd (on_data c msg s)) = None
        \<and> map_get (conn_peer c) (pendingIncoming (fst (snd (on_data c msg s)))) = Some c
        \<and> pendingOutgoing (fst (snd (on_data c msg s))) = pendingOutgoing s
        \<and> connections (fst (snd (on_data c msg s))) = connections s"
    by (simp add: on_data_def on_HANDSHAKE_INIT_def map_get_set)
  ultimately show ?thesis by blast
qed

theorem one_entry_per_map_witness:
  "js_get (init_from ''Bob'') ''type'' = Inr (JStr ''HANDSHAKE_INIT'')
   \<and> js_get (init_from ''Bob'') ''payload'' = Inr (name_payload ''Bob'')
   \<and> js_get (name_payload ''Bob'') ''name'' = Inr (JStr ''Bob'')
   \<and> map_get ''bob'' (pendingOutgoing alice_waiting) = Some (Some bob_0)
   \<and> map_get ''bob'' (pendingIncoming (fst (snd (on_data bob_1 (init_from ''Bob'') alice_waiting)))) = Some bob_1
   \<and> pendingOutgoing (fst (snd (on_data bob_1 (init_from ''Bob'') alice_waiting))) = pendingOutgoing alice_waiting"
proof -
  have a: "js_get (init_from ''Bob'') ''type'' = Inr (JStr ''HANDSHAKE_INIT'')"
    by (simp add: init_from_def P2PMessage_def)
  have b: "js_get (init_from ''Bob'') ''payload'' = Inr (name_payload ''Bob'')"
    by (simp add: init_from_def P2PMessage_def)
  have c: "js_get (name_payload ''Bob'') ''name'' = Inr (JStr ''Bob'')"
    by (simp add: name_payload_def)
  have d: "map_get ''bob'' (pendingOutgoing alice_waiting) = Some (Some bob_0)"
    by (simp add: alice_waiting_fields map_get_def)
  have e: "conn_peer bob_1 = ''bob''" by (simp add: bob_1_def)
  show ?thesis
    using a b c d e
      one_entry_per_map [of "''bob''" "[]" "init_from ''Bob''" "name_payload ''Bob''"
        "JStr ''Bob''" bob_1 alice_waiting]
    by simp
qed

section \<open>Accepting an invitation\<close>

text \<open>
  C2 against the code. Bob's \<^verbatim>\<open>HANDSHAKE_INIT\<close> carries the name \<open>''Bob''\<close>, and the
  connection request is raised with it. When Alice accepts, one \<^verbatim>\<open>HANDSHAKE_ACCEPT\<close>
  goes out on Bob's channel, the pending-incoming entry is removed and the Link is
  active, but the peer-connected event is raised with the identifier \<open>''bob''\<close> in the
  place of the name: \<^verbatim>\<open>acceptConnection\<close> passes \<^verbatim>\<open>peerId\<close> to
  \<^verbatim>\<open>finalizeConnection\<close>, where the \<^verbatim>\<open>HANDSHAKE_ACCEPT\<close> branch passes the name.
\<close>

theorem accept_reports_id_as_name:
  "fst (run [Transport (IncomingConnection ''bob''), Transport (ChanOpen bob_0),
             Transport (ChanData bob_0 (init_from ''Bob''))] alice_ready)
     = [ConnectionRequest ''bob'' (JStr ''Bob'')]
   \<and> fst (acceptConnection ''bob'' alice_invited)
     = [Send 0 (accept_from ''Alice''), PeerConnected ''bob'' (JStr ''bob'')]
   \<and> snd (snd (acceptConnection ''bob'' alice_invited)) = None
   \<and> pendingIncoming (fst (snd (acceptConnection ''bob'' alice_invited))) = []
   \<and> connections (fst (snd (acceptConnection ''bob'' alice_invited))) = [(''bob'', bob_0)]"
  by (simp add: alice_invited_fields alice_ready_fields run_defs)

section \<open>Closing and cancelling a pending Link\<close>





section \<open>Closing an active Link\<close>

text \<open>
  C5, as stated, fails. The Link to Bob is active over Alice's channel, and Bob's own
  channel is open too. Alice's channel closes: \<open>''bob''\<close> is removed and
  peer-disconnected is raised. Then Bob's channel closes, for an identifier that is
  already removed, and peer-disconnected is raised again.
\<close>

theorem second_close_raises_again:
  "map_get ''bob'' (connections alice_two_channels) = Some bob_0
   \<and> fst (deliver (ChanClose bob_0) alice_two_channels) = [PeerDisconnected ''bob'']
   \<and> links ''bob'' (fst (snd (deliver (ChanClose bob_0) alice_two_channels))) = []
   \<and> fst (deliver (ChanClose bob_1) (fst (snd (deliver (ChanClose bob_0) alice_two_channels))))
       = [PeerDisconnected ''bob'']"
  by (simp add: alice_two_channels_fields run_defs)

lemma on_close_again:
  "conn_peer c' = conn_peer c \<Longrightarrow> snd (on_close c' (snd (on_close c s))) = snd (on_close c s)"
  by (simp add: on_close_def map_delete_twice)

text \<open>
  C5, amended. With a peer-disconnected handler registered, the close of the channel
  under an active Link for \<open>r\<close> removes \<open>r\<close> from the active map and raises exactly one
  peer-disconnected event. A further close event for \<open>r\<close> leaves the state as it is and
  raises peer-disconnected once more.
\<close>

theorem active_close:
  "onPeerDisconnectedCallback s \<and> map_get (conn_peer c) (connections s) = Some c
     \<and> conn_peer c' = conn_peer c \<longrightarrow>
     fst (on_close c s) = [PeerDisconnected (conn_peer c)]
     \<and> entries (conn_peer c) (connections (snd (on_close c s))) = []
     \<and> fst (on_close c' (snd (on_close c s))) = [PeerDisconnected (conn_peer c)]
     \<and> snd (on_close c' (snd (on_close c s))) = snd (on_close c s)"
  by (simp add: on_close_again) (simp add: on_close_def entries_map_delete)

theorem active_close_witness:
  "onPeerDisconnectedCallback alice_connected
   \<and> map_get (conn_peer bob_0) (connections alice_connected) = Some bob_0
   \<and> conn_peer bob_1 = conn_peer bob_0
   \<and> fst (on_close bob_0 alice_connected) = [PeerDisconnected ''bob'']
   \<and> entries ''bob'' (connections (snd (on_close bob_0 alice_connected))) = []
   \<and> fst (on_close bob_1 (snd (on_close bob_0 alice_connected))) = [PeerDisconnected ''bob'']"
proof -
  have a: "onPeerDisconnectedCallback alice_connected" by (simp add: alice_connected_fields)
  have b: "map_get (conn_peer bob_0) (connections alice_connected) = Some bob_0"
    by (simp add: alice_connected_fields map_get_def bob_0_def)
  have c: "conn_peer bob_0 = ''bob''" by (simp add: bob_0_def)
  have d: "conn_peer bob_1 = conn_peer bob_0" by (simp add: bob_0_def bob_1_def)
  show ?thesis using a b c d active_close [of alice_connected bob_0 bob_1] by simp
qed

section \<open>Channel errors\<close>

lemma on_error_removes:
  "fst (on_error c s) = []
   \<and> entries (conn_peer c) (connections (snd (on_error c s))) = []
   \<and> entries (conn_peer c) (pendingOutgoing (snd (on_error c s))) = []
   \<and> pendingIncoming (snd (on_error c s)) = pendingIncoming s"
  by (simp add: on_error_def entries_map_delete)

text \<open>
  C7 against the code. The error listener is not the close listener. On the active Link
  to Bob, a close event removes \<open>''bob''\<close> and raises peer-disconnected; an error event
  removes \<open>''bob''\<close> from the active map and raises nothing. On Bob's pending invitation,
  a close event clears the pending-incoming entry; an error event leaves it in place.
\<close>

theorem error_not_like_close:
  "connections alice_connected = [(''bob'', bob_0)]
   \<and> fst (deliver (ChanClose bob_0) alice_connected) = [PeerDisconnected ''bob'']
   \<and> connections (fst (snd (deliver (ChanClose bob_0) alice_connected))) = []
   \<and> fst (deliver (ChanError bob_0) alice_connected) = []
   \<and> connections (fst (snd (deliver (ChanError bob_0) alice_connected))) = []
   \<and> pendingIncoming alice_invited = [(''bob'', bob_0)]
   \<and> pendingIncoming (fst (snd (deliver (ChanClose bob_0) alice_invited))) = []
   \<and> pendingIncoming (fst (snd (deliver (ChanError bob_0) alice_invited))) = [(''bob'', bob_0)]"
  by (simp add: alice_connected_fields alice_invited_fields run_defs)

section \<open>Malformed and unknown messages\<close>

text \<open>
  C8, as stated, fails. A \<^verbatim>\<open>HANDSHAKE_INIT\<close> without a payload makes the listener
  throw a TypeError, at \<^verbatim>\<open>msg.payload.name\<close>.
\<close>

theorem handshake_without_payload_throws:
  "deliver (ChanData bob_0 (JObj [(''type'', JStr ''HANDSHAKE_INIT'')])) alice_connected
     = ([], alice_connected, Some TypeError)"
  by (simp add: alice_connected_fields on_data_def on_HANDSHAKE_INIT_def bob_0_def)

lemma on_data_throw_unchanged:
  "snd (snd (on_data c msg s)) = None
     \<or> (fst (on_data c msg s) = [] \<and> fst (snd (on_data c msg s)) = s)"
proof -
  have "snd (snd (on_HANDSHAKE_INIT c msg s)) = None
     \<or> (fst (on_HANDSHAKE_INIT c msg s) = [] \<and> fst (snd (on_HANDSHAKE_INIT c msg s)) = s)"
    by (simp add: on_HANDSHAKE_INIT_def split: sum.split)
  moreover have "snd (snd (on_HANDSHAKE_ACCEPT c msg s)) = None
     \<or> (fst (on_HANDSHAKE_ACCEPT c msg s) = [] \<and> fst (snd (on_HANDSHAKE_ACCEPT c msg s)) = s)"
    by (simp add: on_HANDSHAKE_ACCEPT_def finalizeConnection_def split: sum.split)
  moreover have "snd (snd (on_CHAT_MESSAGE msg s)) = None
     \<or> (fst (on_CHAT_MESSAGE msg s) = [] \<and> fst (snd (on_CHAT_MESSAGE msg s)) = s)"
    by (simp add: on_CHAT_MESSAGE_def split: sum.split)
  moreover have "snd (snd (on_CHANNEL_SYNC msg s)) = None
     \<or> (fst (on_CHANNEL_SYNC msg s) = [] \<and> fst (snd (on_CHANNEL_SYNC msg s)) = s)"
    by (simp add: on_CHANNEL_SYNC_def split: sum.split)
  moreover have "snd (snd (on_BOARD_UPDATE msg s)) = None
     \<or> (fst (on_BOARD_UPDATE msg s) = [] \<and> fst (snd (on_BOARD_UPDATE msg s)) = s)"
    by (simp add: on_BOARD_UPDATE_def split: sum.split)
  moreover have "snd (snd (on_DELETE_MESSAGE msg s)) = None
     \<or> (fst (on_DELETE_MESSAGE msg s) = [] \<and> fst (snd (on_DELETE_MESSAGE msg s)) = s)"
    by (simp add: on_DELETE_MESSAGE_def split: sum.split)
  moreover have "snd (snd (on_TYPING_STATUS msg s)) = None
     \<or> (fst (on_TYPING_STATUS msg s) = [] \<and> fst (snd (on_TYPING_STATUS msg s)) = s)"
    by (simp add: on_TYPING_STATUS_def split: sum.split)
  ultimately show ?thesis
    by (simp add: on_data_def split: sum.split)
qed

lemma on_data_same_callbacks: "same_callbacks (fst (snd (on_data c msg s))) s"
proof -
  have "same_callbacks (fst (snd (on_HANDSHAKE_INIT c msg s))) s"
    by (simp add: same_callbacks_def on_HANDSHAKE_INIT_def split: sum.split)
  moreover have "same_callbacks (fst (snd (on_HANDSHAKE_ACCEPT c msg s))) s"
    by (simp add: same_callbacks_def on_HANDSHAKE_ACCEPT_def finalizeConnection_def
        split: sum.split)
  moreover have "same_callbacks s s" by (simp add: same_callbacks_def)
  ultimately show ?thesis
    by (simp add: on_data_def on_other_state split: sum.split)
qed

lemma on_data_cong:
  assumes "same_callbacks s' s"
  shows "fst (on_data c msg s') = fst (on_data c msg s)"
    and "snd (snd (on_data c msg s')) = snd (snd (on_data c msg s))"
proof -
  have a: "fst (on_HANDSHAKE_INIT c msg s') = fst (on_HANDSHAKE_INIT c msg s)"
    "snd (snd (on_HANDSHAKE_INIT c msg s')) = snd (snd (on_HANDSHAKE_INIT c msg s))"
    using assms by (simp_all add: same_callbacks_def on_HANDSHAKE_INIT_def split: sum.split)
  have b: "fst (on_HANDSHAKE_ACCEPT c msg s') = fst (on_HANDSHAKE_ACCEPT c msg s)"
    "snd (snd (on_HANDSHAKE_ACCEPT c msg s')) = snd (snd (on_HANDSHAKE_ACCEPT c msg s))"
    using assms
    by (simp_all add: same_callbacks_def on_HANDSHAKE_ACCEPT_def finalizeConnection_def
        split: sum.split)
  have d: "fst (on_CHAT_MESSAGE msg s') = fst (on_CHAT_MESSAGE msg s)"
    "snd (snd (on_CHAT_MESSAGE msg s')) = snd (snd (on_CHAT_MESSAGE msg s))"
    using assms by (simp_all add: same_callbacks_def on_CHAT_MESSAGE_def split: sum.split)
  have e: "fst (on_CHANNEL_SYNC msg s') = fst (on_CHANNEL_SYNC msg s)"
    "snd (snd (on_CHANNEL_SYNC msg s')) = snd (snd (on_CHANNEL_SYNC msg s))"
    using assms by (simp_all add: same_callbacks_def on_CHANNEL_SYNC_def split: sum.split)
  have f: "fst (on_BOARD_UPDATE msg s') = fst (on_BOARD_UPDATE msg s)"
    "snd (snd (on_BOARD_UPDATE msg s')) = snd (snd (on_BOARD_UPDATE msg s))"
    using assms by (simp_all add: same_callbacks_def on_BOARD_UPDATE_def split: sum.split)
  have g: "fst (on_DELETE_MESSAGE msg s') = fst (on_DELETE_MESSAGE msg s)"
    "snd (snd (on_DELETE_MESSAGE msg s')) = snd (snd (on_DELETE_MESSAGE msg s))"
    using assms by (simp_all add: same_callbacks_def on_DELETE_MESSAGE_def split: sum.split)
  have h: "fst (on_TYPING_STATUS msg s') = fst (on_TYPING_STATUS msg s)"
    "snd (snd (on_TYPING_STATUS msg s')) = snd (snd (on_TYPING_STATUS msg s))"
    using assms by (simp_all add: same_callbacks_def on_TYPING_STATUS_def split: sum.split)
  show "fst (on_data c msg s') = fst (on_data c msg s)"
    by (simp add: on_data_def a b d e f g h split: sum.split)
  show "snd (snd (on_data c msg s')) = snd (snd (on_data c msg s))"
    by (simp add: on_data_def a b d e f g h split: sum.split)
qed

text \<open>
  C8, amended. A message that has a kind tag outside \<^verbatim>\<open>P2PMessageType\<close> is dropped:
  no effect, no exception, the state unchanged. A malformed message can make the
  listener throw; when it throws, it has raised no event and changed nothing. Whatever
  a message is, handling it does not change what the listener does with a later message
  on any channel: the same events and the same exception, if any.
\<close>

theorem unknown_kind_dropped:
  "(js_get msg ''type'' = Inr t \<and> t \<notin> set P2PMessageType \<longrightarrow> on_data c msg s = ([], s, None))
   \<and> (snd (snd (on_data c msg s)) \<noteq> None \<longrightarrow>
        fst (on_data c msg s) = [] \<and> fst (snd (on_data c msg s)) = s)
   \<and> fst (on_data c' msg' (fst (snd (on_data c msg s)))) = fst (on_data c' msg' s)
   \<and> snd (snd (on_data c' msg' (fst (snd (on_data c msg s))))) = snd (snd (on_data c' msg' s))"
proof -
  have "js_get msg ''type'' = Inr t \<and> t \<notin> set P2PMessageType \<longrightarrow> on_data c msg s = ([], s, None)"
    by (simp add: on_data_def P2PMessageType_def)
  then show ?thesis
    using on_data_throw_unchanged [of c msg s]
      on_data_cong [OF on_data_same_callbacks, of c' msg' c msg s]
    by auto
qed

theorem unknown_kind_dropped_witness:
  "js_get (P2PMessage ''PING'' JNull) ''type'' = Inr (JStr ''PING'')
   \<and> JStr ''PING'' \<notin> set P2PMessageType
   \<and> on_data bob_0 (P2PMessage ''PING'' JNull) alice_connected = ([], alice_connected, None)
   \<and> snd (snd (on_data bob_0 JNull alice_connected)) \<noteq> None
   \<and> fst (on_data bob_0 JNull alice_connected) = []
   \<and> fst (snd (on_data bob_0 JNull alice_connected)) = alice_connected"
proof -
  have a: "js_get (P2PMessage ''PING'' JNull) ''type'' = Inr (JStr ''PING'')"
    by (simp add: P2PMessage_def)
  have b: "JStr ''PING'' \<notin> set P2PMessageType" by (simp add: P2PMessageType_def)
  have c: "snd (snd (on_data bob_0 JNull alice_connected)) \<noteq> None"
    by (simp add: on_data_def)
  show ?thesis
    using a b c
      unknown_kind_dropped [of "P2PMessage ''PING'' JNull" "JStr ''PING''" bob_0 alice_connected]
      unknown_kind_dropped [of JNull JNull bob_0 alice_connected]
    by simp
qed

section \<open>Operations on a missing Link\<close>

text \<open>
  C9. When the map an operation looks into has no entry for \<open>r\<close>, the operation does
  nothing: \<^verbatim>\<open>acceptConnection\<close> and \<^verbatim>\<open>rejectConnection\<close> without a pending-incoming
  entry, \<^verbatim>\<open>cancelRequest\<close> without a pending-outgoing entry and \<^verbatim>\<open>disconnectPeer\<close>
  without an active entry perform no effect, raise no event, throw nothing and return
  the state they were given.
\<close>

theorem missing_link_noop:
  "(map_get r (pendingIncoming s) = None \<longrightarrow>
        acceptConnection r s = ([], s, None) \<and> rejectConnection r s = ([], s))
   \<and> (map_get r (pendingOutgoing s) = None \<longrightarrow> cancelRequest r s = ([], s))
   \<and> (map_get r (connections s) = None \<longrightarrow> disconnectPeer r s = ([], s))"
  by (simp add: acceptConnection_def rejectConnection_def cancelRequest_def disconnectPeer_def)

theorem missing_link_noop_witness:
  "map_get ''bob'' (pendingIncoming (new_PeerService)) = None
   \<and> map_get ''bob'' (pendingOutgoing (new_PeerService)) = None
   \<and> map_get ''bob'' (connections (new_PeerService)) = None
   \<and> acceptConnection ''bob'' (new_PeerService) = ([], new_PeerService, None)
   \<and> rejectConnection ''bob'' (new_PeerService) = ([], new_PeerService)
   \<and> cancelRequest ''bob'' (new_PeerService) = ([], new_PeerService)
   \<and> disconnectPeer ''bob'' (new_PeerService) = ([], new_PeerService)"
proof -
  have a: "map_get ''bob'' (pendingIncoming (new_PeerService)) = None"
    by (simp add: new_PeerService_def map_get_def)
  have b: "map_get ''bob'' (pendingOutgoing (new_PeerService)) = None"
    by (simp add: new_PeerService_def map_get_def)
  have c: "map_get ''bob'' (connections (new_PeerService)) = None"
    by (simp add: new_PeerService_def map_get_def)
  show ?thesis
    using a b c missing_link_noop [of "''bob''" "new_PeerService"] by simp
qed

section \<open>Repeated initialisation\<close>

text \<open>
  C10. When the service holds a peer that is not destroyed and has the id \<open>userId\<close>,
  \<^verbatim>\<open>initialize(userId, userName)\<close> returns a promise already resolved with \<open>userId\<close>,
  constructs no new transport peer, and changes nothing but the stored name: the peer
  and the three maps are as before. Calling it again gives the same result and state.
\<close>

theorem initialize_same_id:
  assumes "peer s = Some p" and "\<not> destroyed p" and "pid p = userId"
  shows "initialize userId userName s = (Resolved userId, [], s\<lparr>myName := userName\<rparr>)
       \<and> initialize userId userName (snd (snd (initialize userId userName s)))
           = initialize userId userName s"
  using assms by (simp add: initialize_def)

theorem initialize_same_id_witness:
  "peer alice_connected = Some \<lparr>pid = ''alice'', destroyed = False\<rparr>
   \<and> \<not> destroyed \<lparr>pid = ''alice'', destroyed = False\<rparr>
   \<and> pid \<lparr>pid = ''alice'', destroyed = False\<rparr> = ''alice''
   \<and> initialize ''alice'' ''Alicia'' alice_connected
       = (Resolved ''alice'', [], alice_connected\<lparr>myName := ''Alicia''\<rparr>)
   \<and> connections (snd (snd (initialize ''alice'' ''Alicia'' alice_connected)))
       = [(''bob'', bob_0)]"
proof -
  have p: "peer alice_connected = Some \<lparr>pid = ''alice'', destroyed = False\<rparr>"
    by (simp add: alice_connected_fields)
  have d: "\<not> destroyed \<lparr>pid = ''alice'', destroyed = False\<rparr>" by simp
  have i: "pid \<lparr>pid = ''alice'', destroyed = False\<rparr> = ''alice''" by simp
  show ?thesis
    using p initialize_same_id [OF p d i, of "''Alicia''"] by (simp add: alice_connected_fields)
qed

section \<open>Broadcast\<close>

lemma emit_close_effects:
  "filter is_send (fst (emit_close c s)) = []"
  "list_all is_disconnect (fst (emit_close c s))"
  by (simp_all add: emit_close_def on_close_def Let_def)

lemma emit_close_flags:
  "chan_failed (snd (emit_close c s)) = chan_failed s"
  "conn_open (snd (emit_close c s)) = (conn_open s)(cid c := False)"
  by (auto simp: emit_close_def on_close_def Let_def fun_upd_idem)

lemma emit_close_connections:
  "e \<in> set (connections s) \<Longrightarrow> fst e \<noteq> conn_peer c \<Longrightarrow>
     e \<in> set (connections (snd (emit_close c s)))"
  by (simp add: emit_close_def on_close_def Let_def set_map_delete)

lemma forEach_send_sends:
  assumes "distinct (map fst rest)"
    and "list_all (\<lambda>e. conn_peer (snd e) = fst e) rest"
    and "\<forall>e \<in> set rest. conn_open s0 (cid (snd e)) \<and> \<not> chan_failed s0 (cid (snd e)) \<longrightarrow>
           e \<in> set (connections s) \<and> conn_open s (cid (snd e))"
    and "\<forall>h. conn_open s h \<longrightarrow> conn_open s0 h"
    and "chan_failed s = chan_failed s0"
  shows "filter is_send (fst (forEach_send pkt rest s)) =
           map (\<lambda>e. Send (cid (snd e)) pkt)
             (filter (\<lambda>e. \<not> chan_failed s0 (cid (snd e)))
                (filter (\<lambda>e. conn_open s0 (cid (snd e))) rest))"
  using assms
proof (induction rest arbitrary: s)
  case Nil
  then show ?case by simp
next
  case (Cons e rest)
  let ?c = "snd e"
  from Cons.prems(1) have dr: "distinct (map fst rest)" and ne: "\<forall>e2 \<in> set rest. fst e2 \<noteq> fst e"
    by (auto simp: image_iff)
  from Cons.prems(2) have kr: "list_all (\<lambda>e. conn_peer (snd e) = fst e) rest"
    and ke: "conn_peer ?c = fst e" by simp_all
  from Cons.prems(3) have
    gr: "\<forall>e2 \<in> set rest. conn_open s0 (cid (snd e2)) \<and> \<not> chan_failed s0 (cid (snd e2)) \<longrightarrow>
           e2 \<in> set (connections s) \<and> conn_open s (cid (snd e2))"
    and ge: "conn_open s0 (cid ?c) \<and> \<not> chan_failed s0 (cid ?c) \<longrightarrow>
           e \<in> set (connections s) \<and> conn_open s (cid ?c)" by simp_all
  note IH = Cons.IH [OF dr kr]
  show ?case
  proof (cases "e \<in> set (connections s) \<and> conn_open s (cid ?c)")
    case False
    with ge have ng: "\<not> (conn_open s0 (cid ?c) \<and> \<not> chan_failed s0 (cid ?c))" by blast
    have "filter is_send (fst (forEach_send pkt rest s)) =
           map (\<lambda>e. Send (cid (snd e)) pkt)
             (filter (\<lambda>e. \<not> chan_failed s0 (cid (snd e)))
                (filter (\<lambda>e. conn_open s0 (cid (snd e))) rest))"
      using gr Cons.prems(4) Cons.prems(5) by (rule IH)
    with False ng show ?thesis by auto
  next
    case True
    then have os: "conn_open s (cid ?c)" by simp
    with Cons.prems(4) have o0: "conn_open s0 (cid ?c)" by blast
    show ?thesis
    proof (cases "chan_failed s0 (cid ?c)")
      case failed: True
      let ?s1 = "snd (emit_close ?c s)"
      have cs: "conn_send ?c pkt s = emit_close ?c s"
        using os failed Cons.prems(5) by (simp add: conn_send_def)
      have g1: "\<forall>e2 \<in> set rest. conn_open s0 (cid (snd e2)) \<and> \<not> chan_failed s0 (cid (snd e2)) \<longrightarrow>
           e2 \<in> set (connections ?s1) \<and> conn_open ?s1 (cid (snd e2))"
      proof (intro ballI impI)
        fix e2 assume e2: "e2 \<in> set rest"
          and g: "conn_open s0 (cid (snd e2)) \<and> \<not> chan_failed s0 (cid (snd e2))"
        from gr e2 g have p: "e2 \<in> set (connections s)" and o: "conn_open s (cid (snd e2))"
          by blast+
        from g failed have "cid (snd e2) \<noteq> cid ?c" by auto
        with o have "conn_open ?s1 (cid (snd e2))" by (simp add: emit_close_flags)
        moreover from ne e2 ke have "fst e2 \<noteq> conn_peer ?c" by simp
        with p have "e2 \<in> set (connections ?s1)" by (rule emit_close_connections)
        ultimately show "e2 \<in> set (connections ?s1) \<and> conn_open ?s1 (cid (snd e2))" by simp
      qed
      have m1: "\<forall>h. conn_open ?s1 h \<longrightarrow> conn_open s0 h"
        using Cons.prems(4) by (simp add: emit_close_flags)
      have f1: "chan_failed ?s1 = chan_failed s0"
        using Cons.prems(5) by (simp add: emit_close_flags)
      have "filter is_send (fst (forEach_send pkt rest ?s1)) =
           map (\<lambda>e. Send (cid (snd e)) pkt)
             (filter (\<lambda>e. \<not> chan_failed s0 (cid (snd e)))
                (filter (\<lambda>e. conn_open s0 (cid (snd e))) rest))"
        using g1 m1 f1 by (rule IH)
      with True failed cs show ?thesis
        by (simp add: case_prod_unfold emit_close_effects)
    next
      case working: False
      have cs: "conn_send ?c pkt s = ([Send (cid ?c) pkt], s)"
        using os working Cons.prems(5) by (simp add: conn_send_def)
      have "filter is_send (fst (forEach_send pkt rest s)) =
           map (\<lambda>e. Send (cid (snd e)) pkt)
             (filter (\<lambda>e. \<not> chan_failed s0 (cid (snd e)))
                (filter (\<lambda>e. conn_open s0 (cid (snd e))) rest))"
        using gr Cons.prems(4) Cons.prems(5) by (rule IH)
      with True working o0 cs show ?thesis by (simp add: case_prod_unfold)
    qed
  qed
qed

lemma conn_send_effects:
  "conn_open s (cid c) \<Longrightarrow> list_all (\<lambda>ef. is_send ef \<or> is_disconnect ef) (fst (conn_send c m s))"
  using emit_close_effects(2) [of c s]
  by (auto simp: conn_send_def list_all_iff)

lemma forEach_send_effects:
  "list_all (\<lambda>ef. is_send ef \<or> is_disconnect ef) (fst (forEach_send pkt rest s))"
proof (induction rest arbitrary: s)
  case Nil
  then show ?case by simp
next
  case (Cons e rest)
  show ?case
    using Cons.IH [of s] Cons.IH [of "snd (conn_send (snd e) pkt s)"]
      conn_send_effects [of s "snd e" pkt]
    by (simp add: case_prod_unfold)
qed

lemma forEach_send_all_working:
  assumes "set rest \<subseteq> set (connections s)"
    and "list_all (\<lambda>e. \<not> chan_failed s (cid (snd e))) (filter (\<lambda>e. conn_open s (cid (snd e))) rest)"
  shows "forEach_send pkt rest s =
           (map (\<lambda>e. Send (cid (snd e)) pkt) (filter (\<lambda>e. conn_open s (cid (snd e))) rest), s)"
  using assms by (induction rest) (auto simp: conn_send_def)

text \<open>
  C4. In every state the service reaches, the keys of the active map are distinct and
  each names the peer of its channel (\<open>active_ok\<close>). In such a state
  \<^verbatim>\<open>broadcast(m)\<close> sends \<open>m\<close>, as a \<^verbatim>\<open>CHAT_MESSAGE\<close>, over exactly the active Links
  whose channel reports open and carries the message, in the order of the map, and over
  no other channel; it throws nothing. A send that fails on one open channel does not
  stop the fan-out: the transport closes that channel, its close listener runs inside
  the call, so all that \<^verbatim>\<open>broadcast\<close> does apart from sending is to raise
  peer-disconnected events, and the working Links after it in the map still get \<open>m\<close>.
  When no open channel fails, the messages go out on all the open active Links and the
  state is left as it was.
\<close>

theorem broadcast_fan_out:
  assumes "active_ok s"
  shows "filter is_send (fst (broadcast m s)) =
           map (\<lambda>e. Send (cid (snd e)) (P2PMessage ''CHAT_MESSAGE'' m)) (working_links s)
       \<and> list_all (\<lambda>ef. is_send ef \<or> is_disconnect ef) (fst (broadcast m s))
       \<and> snd (snd (broadcast m s)) = None
       \<and> (working_links s = open_links s \<longrightarrow>
            broadcast m s =
              (map (\<lambda>e. Send (cid (snd e)) (P2PMessage ''CHAT_MESSAGE'' m)) (open_links s), s, None))"
proof -
  from assms have d: "distinct (map fst (connections s))"
    and k: "list_all (\<lambda>e. conn_peer (snd e) = fst e) (connections s)"
    by (simp_all add: active_ok_def)
  have "filter is_send (fst (forEach_send (P2PMessage ''CHAT_MESSAGE'' m) (connections s) s)) =
           map (\<lambda>e. Send (cid (snd e)) (P2PMessage ''CHAT_MESSAGE'' m))
             (filter (\<lambda>e. \<not> chan_failed s (cid (snd e)))
                (filter (\<lambda>e. conn_open s (cid (snd e))) (connections s)))"
    using d k by (rule forEach_send_sends) simp_all
  then have a: "filter is_send (fst (broadcast m s)) =
           map (\<lambda>e. Send (cid (snd e)) (P2PMessage ''CHAT_MESSAGE'' m)) (working_links s)"
    by (simp add: broadcast_def case_prod_unfold working_links_def open_links_def)
  have b: "list_all (\<lambda>ef. is_send ef \<or> is_disconnect ef) (fst (broadcast m s))"
    using forEach_send_effects [of "P2PMessage ''CHAT_MESSAGE'' m" "connections s" s]
    by (simp add: broadcast_def case_prod_unfold)
  have c: "snd (snd (broadcast m s)) = None"
    by (simp add: broadcast_def case_prod_unfold)
  have e: "broadcast m s =
              (map (\<lambda>e. Send (cid (snd e)) (P2PMessage ''CHAT_MESSAGE'' m)) (open_links s), s, None)"
    if w: "working_links s = open_links s"
  proof -
    from w have "list_all (\<lambda>e. \<not> chan_failed s (cid (snd e))) (open_links s)"
      by (simp add: working_links_def list_all_iff filter_id_conv)
    then have "list_all (\<lambda>e. \<not> chan_failed s (cid (snd e)))
        (filter (\<lambda>e. conn_open s (cid (snd e))) (connections s))"
      by (simp add: open_links_def)
    then have "forEach_send (P2PMessage ''CHAT_MESSAGE'' m) (connections s) s =
           (map (\<lambda>e. Send (cid (snd e)) (P2PMessage ''CHAT_MESSAGE'' m))
              (filter (\<lambda>e. conn_open s (cid (snd e))) (connections s)), s)"
      by (intro forEach_send_all_working) simp_all
    then show ?thesis by (simp add: broadcast_def open_links_def)
  qed
  from a b c e show ?thesis by blast
qed

theorem broadcast_fan_out_witness:
  "active_ok alice_two_broken
   \<and> open_links alice_two_broken = [(''bob'', bob_0), (''carol'', carol_1)]
   \<and> working_links alice_two_broken = [(''carol'', carol_1)]
   \<and> fst (broadcast (JStr ''hi'') alice_two_broken)
       = [PeerDisconnected ''bob'', Send 1 (P2PMessage ''CHAT_MESSAGE'' (JStr ''hi''))]
   \<and> filter is_send (fst (broadcast (JStr ''hi'') alice_two_broken))
       = [Send 1 (P2PMessage ''CHAT_MESSAGE'' (JStr ''hi''))]
   \<and> active_ok alice_two
   \<and> working_links alice_two = open_links alice_two
   \<and> broadcast (JStr ''hi'') alice_two =
       ([Send 0 (P2PMessage ''CHAT_MESSAGE'' (JStr ''hi'')),
         Send 1 (P2PMessage ''CHAT_MESSAGE'' (JStr ''hi''))], alice_two, None)
   \<and> active_ok alice_race
   \<and> pendingOutgoing alice_race = [(''bob'', Some bob_0)]
   \<and> pendingIncoming alice_race = [(''bob'', bob_1)]
   \<and> filter is_send (fst (broadcast (JStr ''hi'') alice_race)) = []"
proof -
  have a: "active_ok alice_two_broken" "active_ok alice_two" "active_ok alice_race"
    by (simp_all add: active_ok_def alice_two_broken_fields alice_two_fields alice_race_fields
        bob_0_def carol_1_def)
  have b: "open_links alice_two_broken = [(''bob'', bob_0), (''carol'', carol_1)]"
    "working_links alice_two_broken = [(''carol'', carol_1)]"
    by (simp_all add: working_links_def open_links_def alice_two_broken_fields bob_0_def carol_1_def)
  have c: "open_links alice_two = [(''bob'', bob_0), (''carol'', carol_1)]"
    "working_links alice_two = open_links alice_two"
    by (simp_all add: working_links_def open_links_def alice_two_fields bob_0_def carol_1_def)
  have d: "working_links alice_race = []"
    by (simp add: working_links_def open_links_def alice_race_fields)
  have e: "fst (broadcast (JStr ''hi'') alice_two_broken)
       = [PeerDisconnected ''bob'', Send 1 (P2PMessage ''CHAT_MESSAGE'' (JStr ''hi''))]"
    by (simp add: alice_two_broken_fields broadcast_def conn_send_def emit_close_def on_close_def
        map_delete_def bob_0_def carol_1_def Let_def)
  show ?thesis
    using a b c d e broadcast_fan_out [OF a(1), of "JStr ''hi''"]
      broadcast_fan_out [OF a(2), of "JStr ''hi''"]
      broadcast_fan_out [OF a(3), of "JStr ''hi''"]
    by (simp add: alice_race_fields bob_0_def carol_1_def)
qed

section \<open>Connecting\<close>

lemma conn_close_fields:
  "next_cid (snd (conn_close c s)) = next_cid s"
  "myName (snd (conn_close c s)) = myName s"
  "peer (snd (conn_close c s)) = peer s"
  "peer_disconnected (snd (conn_close c s)) = peer_disconnected s"
  "conn_open (snd (conn_close c s)) = (conn_open s)(cid c := False)"
  by (auto simp: conn_close_def emit_close_def on_close_def Let_def case_prod_unfold fun_upd_idem)

lemma conn_close_effects:
  "fst (conn_close c s) =
     Close (cid c) #
       (if conn_open s (cid c) \<and> data_listener s (cid c) \<and> onPeerDisconnectedCallback s
        then [PeerDisconnected (conn_peer c)] else [])"
  by (simp add: conn_close_def emit_close_def on_close_def Let_def case_prod_unfold)

lemma conn_close_maps:
  "connections (snd (conn_close c s)) = connections s
   \<or> connections (snd (conn_close c s)) = map_delete (conn_peer c) (connections s)"
  "pendingIncoming (snd (conn_close c s)) = pendingIncoming s
   \<or> pendingIncoming (snd (conn_close c s)) = map_delete (conn_peer c) (pendingIncoming s)"
  "pendingOutgoing (snd (conn_close c s)) = pendingOutgoing s
   \<or> pendingOutgoing (snd (conn_close c s)) = map_delete (conn_peer c) (pendingOutgoing s)"
  by (simp_all add: conn_close_def emit_close_def on_close_def Let_def case_prod_unfold)

text \<open>
  C6, as stated, fails. No Link for \<open>''bob''\<close> exists, and \<^verbatim>\<open>connectToPeer\<close> opens no
  channel and records no Link: on a service that was never initialised the guard
  \<^verbatim>\<open>if (!this.peer) return\<close> ends the call; on a service whose Peer has lost the
  signalling server \<^verbatim>\<open>this.peer.connect\<close> returns \<^verbatim>\<open>undefined\<close>, which is stored
  under \<open>''bob''\<close> in the pending-outgoing map before \<^verbatim>\<open>conn.on\<close> throws a TypeError.
\<close>

theorem connect_needs_live_peer:
  "links ''bob'' new_PeerService = []
   \<and> connectToPeer ''bob'' new_PeerService = ([], new_PeerService, None)
   \<and> peer alice_offline = Some \<lparr>pid = ''alice'', destroyed = False\<rparr>
   \<and> peer_disconnected alice_offline
   \<and> links ''bob'' alice_offline = []
   \<and> fst (connectToPeer ''bob'' alice_offline) = []
   \<and> snd (snd (connectToPeer ''bob'' alice_offline)) = Some TypeError
   \<and> pendingOutgoing (fst (snd (connectToPeer ''bob'' alice_offline))) = [(''bob'', None)]
   \<and> links ''bob'' (fst (snd (connectToPeer ''bob'' alice_offline))) = []"
  by (simp add: connectToPeer_def links_def entries_def new_PeerService_def alice_offline_fields
      map_has_def map_get_def map_set_def)

lemma connectToPeer_noop:
  "map_has r (connections s) \<or> peer s = None \<Longrightarrow> connectToPeer r s = ([], s, None)"
  by (auto simp: connectToPeer_def split: option.split)

lemma connectToPeer_retry:
  assumes "peer_online s" and "distinct_keys s" and "\<not> map_has r (connections s)"
    and "map_get r (pendingOutgoing s) = Some (Some old)"
  shows "fst (connectToPeer r s) =
           Close (cid old) #
             (if conn_open s (cid old) \<and> data_listener s (cid old) \<and> onPeerDisconnectedCallback s
              then [PeerDisconnected (conn_peer old)] else [])
           @ [Connect r (next_cid s) (myName s)]"
    and "snd (snd (connectToPeer r s)) = None"
    and "\<not> conn_open (fst (snd (connectToPeer r s))) (cid old)"
    and "entries r (pendingOutgoing (fst (snd (connectToPeer r s))))
           = [(r, Some \<lparr>cid = next_cid s, conn_peer = r\<rparr>)]"
    and "connections (fst (snd (connectToPeer r s))) =
           (if conn_open s (cid old) \<and> data_listener s (cid old)
            then map_delete (conn_peer old) (connections s) else connections s)"
    and "pendingIncoming (fst (snd (connectToPeer r s))) =
           (if conn_open s (cid old) \<and> data_listener s (cid old)
            then map_delete (conn_peer old) (pendingIncoming s) else pendingIncoming s)"
proof -
  from assms(1) obtain p where p: "peer s = Some p" "\<not> destroyed p" "\<not> peer_disconnected s"
    by (auto simp: peer_online_def split: option.splits)
  let ?s1 = "snd (conn_close old s)"
  have c: "connectToPeer r s =
     (fst (conn_close old s) @ [Connect r (next_cid s) (myName s)],
      setupDataListener \<lparr>cid = next_cid s, conn_peer = r\<rparr>
        (?s1\<lparr>next_cid := Suc (next_cid s),
              conn_open := (conn_open ?s1)(next_cid s := False),
              chan_failed := (chan_failed ?s1)(next_cid s := False),
              pendingOutgoing := map_set r (Some \<lparr>cid = next_cid s, conn_peer = r\<rparr>) (pendingOutgoing ?s1),
              on_open := (on_open ?s1)(next_cid s \<mapsto> SendHandshakeInit)\<rparr>), None)"
    using p assms(3,4)
    by (simp add: connectToPeer_def case_prod_unfold Let_def conn_close_fields)
  show "fst (connectToPeer r s) =
           Close (cid old) #
             (if conn_open s (cid old) \<and> data_listener s (cid old) \<and> onPeerDisconnectedCallback s
              then [PeerDisconnected (conn_peer old)] else [])
           @ [Connect r (next_cid s) (myName s)]"
    by (simp add: c conn_close_effects)
  show "snd (snd (connectToPeer r s)) = None" by (simp add: c)
  show "\<not> conn_open (fst (snd (connectToPeer r s))) (cid old)"
    by (simp add: c setupDataListener_def conn_close_fields)
  from assms(2) have d: "distinct (map fst (pendingOutgoing s))" by (simp add: distinct_keys_def)
  then have "distinct (map fst (pendingOutgoing ?s1))"
    using conn_close_maps(3) [of old s] by (auto simp: distinct_map_delete)
  then show "entries r (pendingOutgoing (fst (snd (connectToPeer r s))))
           = [(r, Some \<lparr>cid = next_cid s, conn_peer = r\<rparr>)]"
    by (simp add: c setupDataListener_def entries_map_set)
  show "connections (fst (snd (connectToPeer r s))) =
           (if conn_open s (cid old) \<and> data_listener s (cid old)
            then map_delete (conn_peer old) (connections s) else connections s)"
    by (simp add: c setupDataListener_def conn_close_def emit_close_def on_close_def Let_def
        case_prod_unfold)
  show "pendingIncoming (fst (snd (connectToPeer r s))) =
           (if conn_open s (cid old) \<and> data_listener s (cid old)
            then map_delete (conn_peer old) (pendingIncoming s) else pendingIncoming s)"
    by (simp add: c setupDataListener_def conn_close_def emit_close_def on_close_def Let_def
        case_prod_unfold)
qed

lemma connectToPeer_fresh:
  assumes "peer_online s" and "distinct_keys s" and "links r s = []"
  shows "fst (connectToPeer r s) = [Connect r (next_cid s) (myName s)]"
    and "snd (snd (connectToPeer r s)) = None"
    and "links r (fst (snd (connectToPeer r s))) = [(r, \<lparr>cid = next_cid s, conn_peer = r\<rparr>)]"
    and "entries r (pendingOutgoing (fst (snd (connectToPeer r s))))
           = [(r, Some \<lparr>cid = next_cid s, conn_peer = r\<rparr>)]"
proof -
  from assms(1) obtain p where p: "peer s = Some p" "\<not> destroyed p" "\<not> peer_disconnected s"
    by (auto simp: peer_online_def split: option.splits)
  from assms(3) have n: "map_get r (connections s) = None" "map_get r (pendingIncoming s) = None"
    and o: "defined_entries (entries r (pendingOutgoing s)) = []"
    by (simp_all add: links_empty_iff)
  from n have h: "\<not> map_has r (connections s)" by (simp add: map_has_def map_get_def)
  from o have g: "map_get r (pendingOutgoing s) = None \<or> map_get r (pendingOutgoing s) = Some None"
    by (rule defined_entries_empty_get)
  have c: "connectToPeer r s =
     ([Connect r (next_cid s) (myName s)],
      setupDataListener \<lparr>cid = next_cid s, conn_peer = r\<rparr>
        (s\<lparr>next_cid := Suc (next_cid s),
              conn_open := (conn_open s)(next_cid s := False),
              chan_failed := (chan_failed s)(next_cid s := False),
              pendingOutgoing := map_set r (Some \<lparr>cid = next_cid s, conn_peer = r\<rparr>) (pendingOutgoing s),
              on_open := (on_open s)(next_cid s \<mapsto> SendHandshakeInit)\<rparr>), None)"
    using p h g by (auto simp: connectToPeer_def Let_def)
  show "fst (connectToPeer r s) = [Connect r (next_cid s) (myName s)]" by (simp add: c)
  show "snd (snd (connectToPeer r s)) = None" by (simp add: c)
  from assms(2) have d: "distinct (map fst (pendingOutgoing s))" by (simp add: distinct_keys_def)
  then show e: "entries r (pendingOutgoing (fst (snd (connectToPeer r s))))
           = [(r, Some \<lparr>cid = next_cid s, conn_peer = r\<rparr>)]"
    by (simp add: c setupDataListener_def entries_map_set)
  from n have "entries r (connections s) = []" "entries r (pendingIncoming s) = []"
    by (simp_all add: entries_empty_iff)
  then show "links r (fst (snd (connectToPeer r s))) = [(r, \<lparr>cid = next_cid s, conn_peer = r\<rparr>)]"
    using e by (simp add: links_def c setupDataListener_def)
qed

text \<open>
  C6, amended. \<^verbatim>\<open>connectToPeer(r)\<close> does nothing when an active Link for \<open>r\<close> exists, and
  nothing on a service that holds no Peer. On a service whose Peer is not destroyed and
  is connected to the signalling server, the keys of each map being distinct, and
  without an active Link for \<open>r\<close>: when a pending-outgoing Link exists, its channel is
  closed (if that channel was open, its close listener runs inside the call, removes the
  peer of the channel from the three maps and raises peer-disconnected where a handler is
  registered), then a new channel is opened and recorded, so that exactly one
  pending-outgoing entry for \<open>r\<close> exists afterwards; when no Link exists, a channel is
  opened and recorded as the one pending-outgoing Link, the only Link of \<open>r\<close>. Nothing is
  thrown.
\<close>

theorem connectToPeer_cases:
  "(map_has r (connections s) \<or> peer s = None \<longrightarrow> connectToPeer r s = ([], s, None))
   \<and> (peer_online s \<and> distinct_keys s \<and> \<not> map_has r (connections s)
        \<and> map_get r (pendingOutgoing s) = Some (Some old) \<longrightarrow>
        fst (connectToPeer r s) =
           Close (cid old) #
             (if conn_open s (cid old) \<and> data_listener s (cid old) \<and> onPeerDisconnectedCallback s
              then [PeerDisconnected (conn_peer old)] else [])
           @ [Connect r (next_cid s) (myName s)]
        \<and> snd (snd (connectToPeer r s)) = None
        \<and> \<not> conn_open (fst (snd (connectToPeer r s))) (cid old)
        \<and> entries r (pendingOutgoing (fst (snd (connectToPeer r s))))
            = [(r, Some \<lparr>cid = next_cid s, conn_peer = r\<rparr>)]
        \<and> connections (fst (snd (connectToPeer r s))) =
           (if conn_open s (cid old) \<and> data_listener s (cid old)
            then map_delete (conn_peer old) (connections s) else connections s)
        \<and> pendingIncoming (fst (snd (connectToPeer r s))) =
           (if conn_open s (cid old) \<and> data_listener s (cid old)
            then map_delete (conn_peer old) (pendingIncoming s) else pendingIncoming s))
   \<and> (peer_online s \<and> distinct_keys s \<and> links r s = [] \<longrightarrow>
        fst (connectToPeer r s) = [Connect r (next_cid s) (myName s)]
        \<and> snd (snd (connectToPeer r s)) = None
        \<and> links r (fst (snd (connectToPeer r s))) = [(r, \<lparr>cid = next_cid s, conn_peer = r\<rparr>)]
        \<and> entries r (pendingOutgoing (fst (snd (connectToPeer r s))))
            = [(r, Some \<lparr>cid = next_cid s, conn_peer = r\<rparr>)])"
  using connectToPeer_noop [of r s] connectToPeer_retry [of s r old] connectToPeer_fresh [of s r]
  by blast

theorem connectToPeer_cases_witness:
  "map_has ''bob'' (connections alice_connected)
   \<and> connectToPeer ''bob'' alice_connected = ([], alice_connected, None)
   \<and> peer_online alice_waiting \<and> distinct_keys alice_waiting
   \<and> \<not> map_has ''bob'' (connections alice_waiting)
   \<and> map_get ''bob'' (pendingOutgoing alice_waiting) = Some (Some bob_0)
   \<and> conn_open alice_waiting 0
   \<and> fst (connectToPeer ''bob'' alice_waiting)
       = [Close 0, PeerDisconnected ''bob'', Connect ''bob'' 1 ''Alice'']
   \<and> snd (snd (connectToPeer ''bob'' alice_waiting)) = None
   \<and> \<not> conn_open (fst (snd (connectToPeer ''bob'' alice_waiting))) 0
   \<and> entries ''bob'' (pendingOutgoing (fst (snd (connectToPeer ''bob'' alice_waiting))))
       = [(''bob'', Some bob_1)]
   \<and> peer_online alice_ready \<and> distinct_keys alice_ready \<and> links ''bob'' alice_ready = []
   \<and> fst (connectToPeer ''bob'' alice_ready) = [Connect ''bob'' 0 ''Alice'']
   \<and> links ''bob'' (fst (snd (connectToPeer ''bob'' alice_ready))) = [(''bob'', bob_0)]"
proof -
  have a: "map_has ''bob'' (connections alice_connected)"
    by (simp add: alice_connected_fields map_has_def)
  have b: "peer_online alice_waiting" "distinct_keys alice_waiting"
    "\<not> map_has ''bob'' (connections alice_waiting)"
    "map_get ''bob'' (pendingOutgoing alice_waiting) = Some (Some bob_0)"
    by (simp_all add: alice_waiting_fields peer_online_def distinct_keys_def map_has_def map_get_def)
  have c: "peer_online alice_ready" "distinct_keys alice_ready" "links ''bob'' alice_ready = []"
    by (simp_all add: alice_ready_fields peer_online_def distinct_keys_def links_def entries_def)
  show ?thesis
    using a b c connectToPeer_cases [of "''bob''" alice_connected]
      connectToPeer_cases [of "''bob''" alice_waiting bob_0]
      connectToPeer_cases [of "''bob''" alice_ready]
    by (simp add: alice_waiting_fields alice_ready_fields bob_0_def bob_1_def)
qed

end
